theory Spec2Isabelle
  imports Main "HOL-Library.Multiset" "HOL-Library.Sublist"
begin

section \<open>JavaScript values used by the client\<close>

text \<open>
  A JavaScript string is modelled as a \<^typ>\<open>string\<close>; one \<^typ>\<open>char\<close> stands for one code
  unit. \<open>String.prototype.split\<close> with the separator \<open>'\n'\<close> always returns at least one
  piece: the empty string splits into one empty piece.
\<close>

definition newline :: char where
  "newline = CHR 0x0A"

fun split_nl :: "string \<Rightarrow> string list" where
  "split_nl [] = [[]]"
| "split_nl (c # cs) =
     (if c = newline then [] # split_nl cs
      else (case split_nl cs of
              [] \<Rightarrow> [[c]]
            | l # ls \<Rightarrow> (c # l) # ls))"

text \<open>
  \<open>String.prototype.trim\<close> removes white space and line terminators from both ends. Of
  the code units that fit a \<^typ>\<open>char\<close> these are TAB, LF, VT, FF, CR, SPACE and NBSP.
\<close>

definition is_js_space :: "char \<Rightarrow> bool" where
  "is_js_space c = (c \<in> set [CHR 0x09, CHR 0x0A, CHR 0x0B, CHR 0x0C, CHR 0x0D, CHR 0x20, CHR 0xA0])"

definition js_trim :: "string \<Rightarrow> string" where
  "js_trim s = rev (dropWhile is_js_space (rev (dropWhile is_js_space s)))"

text \<open>
  A JavaScript \<open>Set\<close> keeps its members in insertion order and without duplicates; it is
  modelled as a list. \<open>add\<close> of a member that is present changes nothing.
\<close>

type_synonym 'a js_set = "'a list"

definition set_has :: "'a js_set \<Rightarrow> 'a \<Rightarrow> bool" where
  "set_has s x = (x \<in> set s)"

definition set_add :: "'a js_set \<Rightarrow> 'a \<Rightarrow> 'a js_set" where
  "set_add s x = (if x \<in> set s then s else s @ [x])"

definition set_delete :: "'a js_set \<Rightarrow> 'a \<Rightarrow> 'a js_set" where
  "set_delete s x = filter (\<lambda>y. y \<noteq> x) s"

definition set_size :: "'a js_set \<Rightarrow> nat" where
  "set_size s = length s"

section \<open>History page: the merge selection\<close>

text \<open>The fields of a \<open>VideoHistory\<close> row that the history page reads.\<close>

record video_history =
  vh_id :: string
  vh_status :: string
  vh_title :: "string option"
  vh_videoUrl :: "string option"

datatype toast = Toast string string

text \<open>
  \<open>handleVideoSelect(videoId, isCompleted)\<close>: the result is the toast shown (if any) and the
  next value of \<open>selectedVideos\<close>.
\<close>

definition handleVideoSelect :: "string \<Rightarrow> bool \<Rightarrow> string js_set \<Rightarrow> toast option \<times> string js_set" where
  "handleVideoSelect videoId isCompleted prev =
     (if \<not> isCompleted then
        (Some (Toast ''Cannot Select'' ''Only completed videos can be selected for merging.''), prev)
      else if set_has prev videoId then (None, set_delete prev videoId)
      else if set_size prev \<ge> 19 then
        (Some (Toast ''Maximum Selection Reached'' ''You can select maximum 19 videos at a time.''), prev)
      else (None, set_add prev videoId))"

text \<open>
  The checkbox of a video card (\<open>renderVideoCard\<close>) calls the handler with the card's id and
  \<open>video.status === 'completed'\<close>.
\<close>

definition checkbox_toggle :: "video_history \<Rightarrow> string js_set \<Rightarrow> string js_set" where
  "checkbox_toggle video sel = snd (handleVideoSelect (vh_id video) (vh_status video = ''completed'') sel)"

definition completed_ids :: "video_history list \<Rightarrow> string set" where
  "completed_ids videos = vh_id ` {v \<in> set videos. vh_status v = ''completed''}"

definition selection_ok :: "video_history list \<Rightarrow> string js_set \<Rightarrow> bool" where
  "selection_ok videos sel =
     (distinct sel \<and> set_size sel \<le> 19 \<and> set sel \<subseteq> completed_ids videos)"

section \<open>Bulk generator: submitting a job\<close>

record video_generation_status =
  vg_prompt :: string
  vg_status :: string
  vg_videoUrl :: "string option"
  vg_error :: "string option"

text \<open>
  The part of the component state that \<open>handleGenerate\<close> touches before its first
  \<open>await\<close>: the progress list, the generating flag and the handle of the polling timer.
\<close>

record bulk_state =
  generationProgress :: "video_generation_status list"
  isGenerating :: bool
  pollingInterval :: "nat option"

record bulk_request =
  br_prompts :: "string list"
  br_aspectRatio :: string

definition promptLines :: "string \<Rightarrow> string list" where
  "promptLines prompts = filter (\<lambda>line. length line > 0) (map js_trim (split_nl prompts))"

definition initialProgress :: "string list \<Rightarrow> video_generation_status list" where
  "initialProgress ls =
     map (\<lambda>p. \<lparr>vg_prompt = p, vg_status = ''pending'', vg_videoUrl = None, vg_error = None\<rparr>) ls"

text \<open>
  \<open>handleGenerate\<close> of the bulk generator up to the call of \<open>fetch('/api/bulk-generate')\<close>:
  the toast shown by a rejection, the state, and the request handed to \<open>fetch\<close> (if any).
\<close>

definition handleGenerate_bulk ::
  "bulk_state \<Rightarrow> string \<Rightarrow> string \<Rightarrow> toast option \<times> bulk_state \<times> bulk_request option" where
  "handleGenerate_bulk st prompts aspectRatio =
     (let st1 = st\<lparr>pollingInterval := None\<rparr>;
          ls = promptLines prompts
      in if length ls = 0 then
           (Some (Toast ''No prompts found'' ''Please enter at least one prompt''), st1, None)
         else if length ls > 200 then
           (Some (Toast ''Too many prompts'' ''Maximum 200 prompts allowed. Please remove some prompts.''),
            st1, None)
         else
           (None,
            st1\<lparr>generationProgress := initialProgress ls, isGenerating := True\<rparr>,
            Some \<lparr>br_prompts = ls, br_aspectRatio = aspectRatio\<rparr>))"

section \<open>Story page: state and the streamed generation\<close>

text \<open>
  \<open>VideoProgress\<close> and \<open>GeneratedVideo\<close> of the story page. Scene numbers are JavaScript
  numbers used as integers.
\<close>

record video_progress =
  vp_sceneNumber :: int
  vp_sceneTitle :: string
  vp_status :: string
  vp_videoUrl :: "string option"
  vp_error :: "string option"
  vp_message :: "string option"
  vp_timestamp :: "string option"

record generated_video =
  gv_sceneNumber :: int
  gv_sceneTitle :: string
  gv_videoUrl :: "string option"
  gv_status :: string
  gv_error :: "string option"

text \<open>
  The event records of \<open>/api/generate-all-videos\<close> that the page distinguishes by
  \<open>data.type\<close>; a record of any other type is parsed, logged and ignored.
\<close>

datatype sse_event =
    Progress "int option" int string "string option" "string option"
  | VideoComplete int "string option" "string option"
  | ErrorEvent int "string option" "string option"
  | Complete "generated_video list"
  | OtherEvent

record home_state =
  currentStep :: nat
  videoProgress :: "video_progress list"
  generatedVideos :: "generated_video list"
  currentVideoScene :: int
  sse_received :: "sse_event list"

text \<open>The body of the \<open>try\<close> block once \<open>JSON.parse\<close> has returned \<open>data\<close>.\<close>

fun dispatch_event :: "sse_event \<Rightarrow> home_state \<Rightarrow> home_state" where
  "dispatch_event (Progress current n status message timestamp) st =
     (let st1 = (case current of
                   None \<Rightarrow> st
                 | Some c \<Rightarrow> if c \<noteq> 0 then st\<lparr>currentVideoScene := c\<rparr> else st)
      in st1\<lparr>videoProgress :=
               map (\<lambda>p. if vp_sceneNumber p = n
                         then p\<lparr>vp_status := status, vp_message := message, vp_timestamp := timestamp\<rparr>
                         else p) (videoProgress st1)\<rparr>)"
| "dispatch_event (VideoComplete n videoUrl timestamp) st =
     st\<lparr>videoProgress :=
          map (\<lambda>p. if vp_sceneNumber p = n
                    then p\<lparr>vp_status := ''completed'', vp_videoUrl := videoUrl,
                           vp_message := Some ''Complete'', vp_timestamp := timestamp\<rparr>
                    else p) (videoProgress st)\<rparr>"
| "dispatch_event (ErrorEvent n err timestamp) st =
     st\<lparr>videoProgress :=
          map (\<lambda>p. if vp_sceneNumber p = n
                    then p\<lparr>vp_status := ''failed'', vp_error := err, vp_timestamp := timestamp\<rparr>
                    else p) (videoProgress st)\<rparr>"
| "dispatch_event (Complete videos) st = st\<lparr>generatedVideos := videos, currentStep := 5\<rparr>"
| "dispatch_event OtherEvent st = st"

definition startsWith :: "string \<Rightarrow> string \<Rightarrow> bool" where
  "startsWith s p = (take (length p) s = p)"

definition substring_from :: "string \<Rightarrow> nat \<Rightarrow> string" where
  "substring_from s n = drop n s"

text \<open>
  One pass of the \<open>for (const line of lines)\<close> loop. \<open>JSON.parse\<close> is a parameter:
  \<open>None\<close> stands for a thrown \<open>SyntaxError\<close>, which the \<open>catch\<close> logs and drops. Every
  parsed record is written to the console (\<open>[SSE Received]\<close>) before it is dispatched.
\<close>

definition process_line :: "(string \<Rightarrow> sse_event option) \<Rightarrow> string \<Rightarrow> home_state \<Rightarrow> home_state" where
  "process_line parse line st =
     (if startsWith line ''data: '' then
        (case parse (substring_from line 6) of
           None \<Rightarrow> st
         | Some data \<Rightarrow> dispatch_event data (st\<lparr>sse_received := sse_received st @ [data]\<rparr>))
      else st)"

text \<open>\<open>Array.prototype.pop\<close>: the last element (\<open>undefined\<close> for an empty array) and the rest.\<close>

definition array_pop :: "'a list \<Rightarrow> 'a option \<times> 'a list" where
  "array_pop xs = (if xs = [] then (None, []) else (Some (last xs), butlast xs))"

text \<open>\<open>x || ''\<close> for a string or \<open>undefined\<close>: the empty string is the only falsy string.\<close>

definition or_empty :: "string option \<Rightarrow> string" where
  "or_empty x = (case x of None \<Rightarrow> [] | Some s \<Rightarrow> if s = [] then [] else s)"

text \<open>
  The \<open>while (true)\<close> loop of \<open>handleGenerateVideos\<close> over the chunks that \<open>reader.read()\<close>
  delivers until \<open>done\<close>. A chunk is the text that the streaming \<open>TextDecoder\<close> returns for
  one read. The state of the loop is the buffer and the page state.
\<close>

fun read_loop ::
  "(string \<Rightarrow> sse_event option) \<Rightarrow> string list \<Rightarrow> string \<times> home_state \<Rightarrow> string \<times> home_state" where
  "read_loop parse [] (buffer, st) = (buffer, st)"
| "read_loop parse (chunk # chunks) (buffer, st) =
     (let buffer1 = buffer @ chunk;
          (popped, lines) = array_pop (split_nl buffer1);
          buffer2 = or_empty popped
      in read_loop parse chunks (buffer2, fold (process_line parse) lines st))"

text \<open>The complete lines of a text: all pieces but the last, which no newline ends.\<close>

definition complete_lines :: "string \<Rightarrow> string list" where
  "complete_lines s = butlast (split_nl s)"

definition parsed_events :: "(string \<Rightarrow> sse_event option) \<Rightarrow> string list \<Rightarrow> sse_event list" where
  "parsed_events parse ls =
     List.map_filter (\<lambda>line. if startsWith line ''data: '' then parse (substring_from line 6) else None) ls"

section \<open>Merging completed videos\<close>

text \<open>The body of \<open>POST /api/merge-videos\<close>.\<close>

record merge_item =
  mi_sceneNumber :: int
  mi_videoUrl :: "string option"

record merge_payload =
  mp_videos :: "merge_item list"
  mp_projectId :: "string option"

text \<open>\<open>if (projectId) payload.projectId = projectId\<close>: a present, non-empty id is kept.\<close>

definition truthy_string :: "string option \<Rightarrow> bool" where
  "truthy_string x = (case x of None \<Rightarrow> False | Some s \<Rightarrow> s \<noteq> [])"

definition payload_projectId :: "string option \<Rightarrow> string option" where
  "payload_projectId projectId = (if truthy_string projectId then projectId else None)"

subsection \<open>The videos view (\<open>VideosDisplay\<close>)\<close>

record display_state =
  retryingScenes :: "int js_set"
  retryingAll :: bool
  merging :: bool
  mergingStatus :: string
  mergedVideoUrl :: "string option"

definition completedVideos :: "generated_video list \<Rightarrow> generated_video list" where
  "completedVideos videos = filter (\<lambda>v. gv_status v = ''completed'') videos"

definition failedVideos :: "generated_video list \<Rightarrow> generated_video list" where
  "failedVideos videos = filter (\<lambda>v. gv_status v = ''failed'') videos"

text \<open>
  \<open>Array.prototype.sort\<close> is stable; with the comparator \<open>a.sceneNumber - b.sceneNumber\<close>
  it is the stable sort by scene number, \<^const>\<open>sort_key\<close>.
\<close>

definition videosToMerge :: "generated_video list \<Rightarrow> merge_item list" where
  "videosToMerge videos =
     map (\<lambda>v. \<lparr>mi_sceneNumber = gv_sceneNumber v, mi_videoUrl = gv_videoUrl v\<rparr>)
       (sort_key gv_sceneNumber (completedVideos videos))"

text \<open>
  \<open>handleMergeVideos\<close> of the videos view up to the call of \<open>fetch('/api/merge-videos')\<close>:
  the toast of a rejection, the component state and the request body (if a request is made).
\<close>

definition handleMergeVideos ::
  "display_state \<Rightarrow> generated_video list \<Rightarrow> string option
     \<Rightarrow> toast option \<times> display_state \<times> merge_payload option" where
  "handleMergeVideos st videos projectId =
     (if length (completedVideos videos) < 2 then
        (Some (Toast ''Cannot Merge'' ''You need at least 2 completed videos to merge.''), st, None)
      else
        (None,
         st\<lparr>merging := True, mergedVideoUrl := None,
            mergingStatus := ''Executed - Processing videos...''\<rparr>,
         Some \<lparr>mp_videos = videosToMerge videos, mp_projectId = payload_projectId projectId\<rparr>))"

subsection \<open>The history page\<close>

definition is_digit :: "char \<Rightarrow> bool" where
  "is_digit c = (c \<in> set ''0123456789'')"

text \<open>
  \<open>title.match(/Scene (\d+)/)?.[1]\<close>: the digits after the leftmost \<open>Scene \<close> that a digit
  follows, or nothing.
\<close>

fun match_scene :: "string \<Rightarrow> string option" where
  "match_scene [] = None"
| "match_scene (c # cs) =
     (if startsWith (c # cs) ''Scene '' \<and> takeWhile is_digit (drop 6 (c # cs)) \<noteq> []
      then Some (takeWhile is_digit (drop 6 (c # cs)))
      else match_scene cs)"

text \<open>
  \<open>parseInt\<close> is a parameter of the model. It returns a double, which is the number the
  digits stand for only below \<open>2^53\<close>; its results are taken in their order as numbers, and
  the comparator \<open>aNum - bNum\<close> then compares two results (two infinite results compare as
  equal, as equal keys do).
\<close>

definition title_scene_number :: "(string \<Rightarrow> 'k) \<Rightarrow> video_history \<Rightarrow> 'k" where
  "title_scene_number parseInt v =
     parseInt (case vh_title v of
                 None \<Rightarrow> ''0''
               | Some t \<Rightarrow> (case match_scene t of None \<Rightarrow> ''0'' | Some ds \<Rightarrow> ds))"

definition digit_value :: "char \<Rightarrow> nat" where
  "digit_value c = of_char c - 48"

text \<open>
  The number that a string of decimal digits stands for. \<open>parseInt\<close> returns it for the
  strings of at most 15 digits.
\<close>

definition parseInt_digits :: "string \<Rightarrow> int" where
  "parseInt_digits ds = int (foldl (\<lambda>n c. 10 * n + digit_value c) 0 ds)"

record history_state =
  mergingProject :: "string option"
  selectedVideos :: "string js_set"
  isMergingSelected :: bool

definition completedWithUrl :: "video_history list \<Rightarrow> video_history list" where
  "completedWithUrl videos =
     filter (\<lambda>v. vh_status v = ''completed'' \<and> truthy_string (vh_videoUrl v)) videos"

definition sortedVideos :: "(string \<Rightarrow> 'k::linorder) \<Rightarrow> video_history list \<Rightarrow> video_history list" where
  "sortedVideos parseInt videos = sort_key (title_scene_number parseInt) (completedWithUrl videos)"

definition history_merge_items :: "(string \<Rightarrow> 'k::linorder) \<Rightarrow> video_history list \<Rightarrow> merge_item list" where
  "history_merge_items parseInt videos =
     map (\<lambda>(idx, v). \<lparr>mi_sceneNumber = int idx + 1, mi_videoUrl = vh_videoUrl v\<rparr>)
       (enumerate 0 (sortedVideos parseInt videos))"

text \<open>
  \<open>handleMergeVideos(projectKey, videos, projectId)\<close> of the history page up to its \<open>fetch\<close>.
  The whole body is inside \<open>try\<close>, so the \<open>return\<close> of the rejection runs the \<open>finally\<close>
  block, which resets \<open>mergingProject\<close>.
\<close>

definition handleMergeVideos_history ::
  "(string \<Rightarrow> 'k::linorder) \<Rightarrow> history_state \<Rightarrow> string \<Rightarrow> video_history list \<Rightarrow> string option
     \<Rightarrow> toast option \<times> history_state \<times> merge_payload option" where
  "handleMergeVideos_history parseInt st projectKey videos projectId =
     (if length (completedWithUrl videos) < 2 then
        (Some (Toast ''Cannot Merge'' ''You need at least 2 completed videos to merge.''),
         st\<lparr>mergingProject := None\<rparr>, None)
      else
        (None,
         st\<lparr>mergingProject := Some projectKey\<rparr>,
         Some \<lparr>mp_videos = history_merge_items parseInt videos,
               mp_projectId = payload_projectId projectId\<rparr>))"

text \<open>
  \<open>handleMergeSelected\<close> up to its \<open>fetch('/api/merge-selected-videos')\<close>; the request body
  is the list of the selected ids in insertion order.
\<close>

definition handleMergeSelected ::
  "history_state \<Rightarrow> toast option \<times> history_state \<times> string list option" where
  "handleMergeSelected st =
     (if set_size (selectedVideos st) < 2 then
        (Some (Toast ''Select More Videos'' ''Please select at least 2 videos to merge.''), st, None)
      else (None, st\<lparr>isMergingSelected := True\<rparr>, Some (selectedVideos st)))"

section \<open>Story page: retrying one scene\<close>

text \<open>
  An awaited promise either resolves with a value or rejects with an \<open>Error\<close>, of which
  the handlers read the message. Every awaited promise is taken to settle; what it settles
  to comes from the environment.
\<close>

datatype 'a settled = Resolved 'a | Rejected string

record scene =
  sc_scene :: int
  sc_title :: string
  sc_description :: string

text \<open>The JSON body of \<open>/api/generate-video\<close> together with \<open>response.ok\<close>.\<close>

record generate_result =
  gr_ok :: bool
  gr_message :: "string option"
  gr_operationName :: string
  gr_sceneId :: string

text \<open>
  The JSON body of \<open>/api/check-video-status\<close>. A body without \<open>status\<close> behaves like one
  whose status equals none of the literals.
\<close>

record status_data =
  sd_status :: string
  sd_videoUrl :: "string option"
  sd_error :: "string option"

text \<open>\<open>x || d\<close> for an optional string \<open>x\<close>.\<close>

definition or_default :: "string option \<Rightarrow> string \<Rightarrow> string" where
  "or_default x d = (case x of None \<Rightarrow> d | Some s \<Rightarrow> if s = [] then d else s)"

text \<open>The two conditions of the \<open>if\<close> / \<open>else if\<close> on \<open>statusData.status\<close>.\<close>

definition status_is_success :: "string \<Rightarrow> bool" where
  "status_is_success s =
     (s = ''COMPLETED'' \<or> s = ''MEDIA_GENERATION_STATUS_COMPLETE''
      \<or> s = ''MEDIA_GENERATION_STATUS_SUCCESSFUL'')"

definition status_is_failure :: "string \<Rightarrow> bool" where
  "status_is_failure s = (s = ''FAILED'' \<or> s = ''MEDIA_GENERATION_STATUS_FAILED'')"

text \<open>
  The functional updates of \<open>generatedVideos\<close> that \<open>handleRetryVideo\<close> makes. Each is a
  \<open>prev.map\<close> over the videos with the scene number.
\<close>

datatype video_update =
    MarkGenerating int
  | MarkCompleted int "string option"
  | MarkFailed int string

fun apply_update :: "video_update \<Rightarrow> generated_video list \<Rightarrow> generated_video list" where
  "apply_update (MarkGenerating n) prev =
     map (\<lambda>v. if gv_sceneNumber v = n then v\<lparr>gv_status := ''generating'', gv_error := None\<rparr> else v) prev"
| "apply_update (MarkCompleted n url) prev =
     map (\<lambda>v. if gv_sceneNumber v = n
               then \<lparr>gv_sceneNumber = gv_sceneNumber v, gv_sceneTitle = gv_sceneTitle v,
                     gv_videoUrl = url, gv_status = ''completed'', gv_error = None\<rparr>
               else v) prev"
| "apply_update (MarkFailed n msg) prev =
     map (\<lambda>v. if gv_sceneNumber v = n then v\<lparr>gv_status := ''failed'', gv_error := Some msg\<rparr> else v) prev"

datatype request =
    GenerateVideo scene
  | CheckVideoStatus string string

text \<open>
  The decimal text of an integer, as a template literal prints it. JavaScript prints a number
  of absolute value \<open>10^21\<close> or more in exponent form; the text below is that of the smaller
  integers, and it is only used in the text of a toast.
\<close>

fun decimal_nat :: "nat \<Rightarrow> string" where
  "decimal_nat n =
     (if n < 10 then [char_of (48 + n)] else decimal_nat (n div 10) @ [char_of (48 + n mod 10)])"

declare decimal_nat.simps [simp del]

definition decimal :: "int \<Rightarrow> string" where
  "decimal k = (if k < 0 then ''-'' @ decimal_nat (nat (- k)) else decimal_nat (nat k))"

text \<open>What an attempt does to the outside, in the order in which it does it.\<close>

datatype action =
    Update video_update
  | Toasted toast
  | Sent request
  | ControllerInstalled int
  | ControllerDeleted int

text \<open>
  The cache-busting URL: \<open>stamp\<close> is the decimal text of \<open>Date.now()\<close>.
\<close>

definition cacheBustedUrl :: "string option \<Rightarrow> string \<Rightarrow> string option" where
  "cacheBustedUrl videoUrl stamp =
     (case videoUrl of
        None \<Rightarrow> None
      | Some u \<Rightarrow> if u = [] then None
                 else Some (u @ (if CHR ''?'' \<in> set u then ''&'' else ''?'') @ ''t='' @ stamp))"

text \<open>
  What the environment does during one pass of the polling loop: whether \<open>abort()\<close> is called
  on the attempt's controller during the one-second sleep, what the status request settles
  to, whether \<open>abort()\<close> is called while that request is awaited, and the clock.
\<close>

record poll_tick =
  abort_in_sleep :: bool
  status_reply :: "status_data settled"
  abort_in_fetch :: bool
  clock :: string

text \<open>How control leaves the \<open>for\<close> loop; a thrown error carries the state of the signal.\<close>

datatype loop_exit =
    Returned
  | Break
  | LoopEnd bool
  | Thrown string bool

definition maxAttempts :: nat where
  "maxAttempts = 300"

text \<open>
  The \<open>for (let i = 0; i < maxAttempts; i++)\<close> loop from pass \<open>i\<close> on; \<open>aborted\<close> is
  \<open>abortController.signal.aborted\<close> at the head of the pass.
\<close>

function poll_loop ::
  "int \<Rightarrow> string \<Rightarrow> string \<Rightarrow> (nat \<Rightarrow> poll_tick) \<Rightarrow> bool \<Rightarrow> nat \<Rightarrow> action list \<times> loop_exit" where
  "poll_loop n operationName sceneId env aborted i =
     (if \<not> i < maxAttempts then ([], LoopEnd aborted)
      else if aborted then ([], Break)
      else if abort_in_sleep (env i) then ([], Break)
      else
        (case status_reply (env i) of
           Rejected msg \<Rightarrow>
             ([Sent (CheckVideoStatus operationName sceneId)], Thrown msg (abort_in_fetch (env i)))
         | Resolved statusData \<Rightarrow>
             if status_is_success (sd_status statusData) then
               (if abort_in_fetch (env i) then ([Sent (CheckVideoStatus operationName sceneId)], Break)
                else
                  ([Sent (CheckVideoStatus operationName sceneId),
                    Update (MarkCompleted n (cacheBustedUrl (sd_videoUrl statusData) (clock (env i)))),
                    Toasted (Toast ''Video Regenerated!''
                             (''Scene '' @ decimal n @ '' has been successfully regenerated.''))],
                   Returned))
             else if status_is_failure (sd_status statusData) then
               ([Sent (CheckVideoStatus operationName sceneId)],
                Thrown (or_default (sd_error statusData) ''Video generation failed'') (abort_in_fetch (env i)))
             else
               (let (acts, ex) = poll_loop n operationName sceneId env (abort_in_fetch (env i)) (Suc i)
                in (Sent (CheckVideoStatus operationName sceneId) # acts, ex))))"
  by pat_completeness auto
termination
  by (relation "measure (\<lambda>(n, operationName, sceneId, env, aborted, i). maxAttempts - i)") auto

text \<open>The \<open>catch\<close> block: nothing when the signal is aborted, else the failure is recorded.\<close>

definition catch_block :: "int \<Rightarrow> string \<Rightarrow> bool \<Rightarrow> action list" where
  "catch_block n msg aborted =
     (if aborted then []
      else [Update (MarkFailed n msg), Toasted (Toast ''Regeneration Failed'' msg)])"

text \<open>The code after the loop, the \<open>catch\<close> and the \<open>finally\<close>, by the way the loop was left.\<close>

definition after_loop :: "int \<Rightarrow> loop_exit \<Rightarrow> action list" where
  "after_loop n ex =
     (case ex of
        Returned \<Rightarrow> []
      | Break \<Rightarrow> []
      | LoopEnd aborted \<Rightarrow>
          if \<not> aborted then catch_block n ''Video generation timed out'' False else []
      | Thrown msg aborted \<Rightarrow> catch_block n msg aborted)"

text \<open>
  What the environment does while \<open>/api/generate-video\<close> is awaited, and during each pass of
  the loop.
\<close>

record attempt_env =
  generate_reply :: "generate_result settled"
  abort_in_generate :: bool
  ticks :: "nat \<Rightarrow> poll_tick"

text \<open>
  \<open>handleRetryVideo\<close> from the update that marks the scene as generating to the end of the
  \<open>finally\<close> block.
\<close>

definition retry_attempt :: "scene \<Rightarrow> attempt_env \<Rightarrow> action list" where
  "retry_attempt sc env =
     [Update (MarkGenerating (sc_scene sc)), Sent (GenerateVideo sc)]
     @ (case generate_reply env of
          Rejected msg \<Rightarrow> catch_block (sc_scene sc) msg (abort_in_generate env)
        | Resolved result \<Rightarrow>
            if \<not> gr_ok result then
              catch_block (sc_scene sc)
                (or_default (gr_message result) ''Failed to start video generation'')
                (abort_in_generate env)
            else
              (let (acts, ex) = poll_loop (sc_scene sc) (gr_operationName result) (gr_sceneId result)
                                  (ticks env) (abort_in_generate env) 0
               in acts @ after_loop (sc_scene sc) ex))
     @ [ControllerDeleted (sc_scene sc)]"


definition is_update :: "action \<Rightarrow> bool" where
  "is_update a = (case a of Update _ \<Rightarrow> True | _ \<Rightarrow> False)"

definition is_sent :: "action \<Rightarrow> bool" where
  "is_sent a = (case a of Sent _ \<Rightarrow> True | _ \<Rightarrow> False)"

text \<open>The updates of an action list applied to \<open>generatedVideos\<close> in order.\<close>

fun run_updates :: "action list \<Rightarrow> generated_video list \<Rightarrow> generated_video list" where
  "run_updates [] vs = vs"
| "run_updates (Update u # as) vs = run_updates as (apply_update u vs)"
| "run_updates (_ # as) vs = run_updates as vs"

section \<open>Single-video page: generating one video\<close>











declare poll_loop.simps [simp del]




section \<open>Story page: retrying all failed scenes\<close>

text \<open>
  \<open>handleRetryVideo(sceneNumber)\<close> as a whole. Without a scene of that number it shows a
  toast and returns. Otherwise it aborts and removes the controller that the map holds for
  the scene, if any, installs a fresh one (\<open>ControllerInstalled\<close>) and runs the attempt.
\<close>

definition handleRetryVideo :: "scene list \<Rightarrow> attempt_env \<Rightarrow> int \<Rightarrow> action list" where
  "handleRetryVideo scenes env sceneNumber =
     (case find (\<lambda>s. sc_scene s = sceneNumber) scenes of
        None \<Rightarrow> [Toasted (Toast ''Error'' ''Scene not found'')]
      | Some sc \<Rightarrow> ControllerInstalled sceneNumber # retry_attempt sc env)"

definition failedSceneNumbers :: "generated_video list \<Rightarrow> int list" where
  "failedSceneNumbers prev = map gv_sceneNumber (filter (\<lambda>v. gv_status v = ''failed'') prev)"

definition shouldRetry :: "int \<Rightarrow> generated_video list \<Rightarrow> bool" where
  "shouldRetry sceneNumber prev =
     list_ex (\<lambda>v. gv_sceneNumber v = sceneNumber \<and> gv_status v = ''failed'') prev"

text \<open>
  \<open>handleRetryAllFailed\<close> reads \<open>generatedVideos\<close> through updaters:
  \<open>setGeneratedVideos(prev => { x = ... prev ...; return prev })\<close>, and uses \<open>x\<close> right after
  the call. React runs an updater during the call only when the component has no update
  pending; otherwise it queues the updater and runs it at the next render, after \<open>x\<close> has been
  used with the value it had before the call. Whether an updater runs during the call is a
  parameter of the model.
\<close>

definition read_in_updater :: "bool \<Rightarrow> 'a \<Rightarrow> 'a \<Rightarrow> 'a" where
  "read_in_updater runs_now before computed = (if runs_now then computed else before)"

text \<open>
  The \<open>for (const sceneNumber of failedSceneNumbers)\<close> loop; \<open>k\<close> counts the calls of
  \<open>setGeneratedVideos\<close> that \<open>handleRetryAllFailed\<close> has made, and \<open>runs_now k\<close> tells
  whether React runs the updater of call \<open>k\<close> during the call. The parameter \<open>retry\<close> stands
  for \<open>await handleRetryVideo(sceneNumber)\<close>: given the scene number and \<open>generatedVideos\<close>
  at the call, it yields what the call did and \<open>generatedVideos\<close> when the awaited promise has
  resolved, so it covers whatever else changed the videos in the meantime. The result lists
  the calls made, in order, and the final videos.
\<close>

fun retry_each ::
  "(nat \<Rightarrow> bool) \<Rightarrow> (int \<Rightarrow> generated_video list \<Rightarrow> action list \<times> generated_video list) \<Rightarrow> nat
     \<Rightarrow> int list \<Rightarrow> generated_video list \<Rightarrow> (int \<times> action list) list \<times> generated_video list" where
  "retry_each runs_now retry k [] prev = ([], prev)"
| "retry_each runs_now retry k (sceneNumber # rest) prev =
     (if read_in_updater (runs_now k) False (shouldRetry sceneNumber prev) then
        (let (acts, prev1) = retry sceneNumber prev;
             (calls, prev2) = retry_each runs_now retry (Suc k) rest prev1
         in ((sceneNumber, acts) # calls, prev2))
      else retry_each runs_now retry (Suc k) rest prev)"

definition handleRetryAllFailed ::
  "(nat \<Rightarrow> bool) \<Rightarrow> (int \<Rightarrow> generated_video list \<Rightarrow> action list \<times> generated_video list)
     \<Rightarrow> generated_video list \<Rightarrow> (int \<times> action list) list \<times> generated_video list" where
  "handleRetryAllFailed runs_now retry prev =
     retry_each runs_now retry 1
       (read_in_updater (runs_now 0) [] (failedSceneNumbers prev)) prev"

text \<open>
  A retry that nothing else interleaves with: the videos after the call are the videos at the
  call with the updates of the call applied.
\<close>

definition undisturbed_retry ::
  "scene list \<Rightarrow> (int \<Rightarrow> attempt_env) \<Rightarrow> int \<Rightarrow> generated_video list
     \<Rightarrow> action list \<times> generated_video list" where
  "undisturbed_retry scenes envs sceneNumber prev =
     (let acts = handleRetryVideo scenes (envs sceneNumber) sceneNumber
      in (acts, run_updates acts prev))"

definition update_scene :: "video_update \<Rightarrow> int" where
  "update_scene u = (case u of MarkGenerating n \<Rightarrow> n | MarkCompleted n _ \<Rightarrow> n | MarkFailed n _ \<Rightarrow> n)"

definition is_generate_request :: "action \<Rightarrow> bool" where
  "is_generate_request a = (case a of Sent (GenerateVideo _) \<Rightarrow> True | _ \<Rightarrow> False)"

text \<open>Every update of an action list is for the scene \<open>n\<close>.\<close>

definition updates_only :: "int \<Rightarrow> action list \<Rightarrow> bool" where
  "updates_only n acts = (\<forall>u. Update u \<in> set acts \<longrightarrow> update_scene u = n)"

section \<open>Story page: the retries of the videos view as a transition system\<close>

text \<open>
  JavaScript runs one task at a time, and an \<open>async\<close> function gives up control only at an
  \<open>await\<close>. The retry code of the story page (\<open>Home\<close>) and of its videos view
  (\<open>VideosDisplay\<close>) is therefore modelled by the steps between the awaits: a click on the
  retry button of a card, a click on the button that retries all failed videos, the end of an
  attempt, and the continuations of the callers that awaited it. The steps may interleave in
  any order. The page stays on the videos view; leaving it is not modelled.

  The state holds the latest value of each React state. A button is taken to be clickable
  whenever the latest state does not disable it. The render that a click finds may be older:
  \<open>retryingScenes\<close> and \<open>retryingAll\<close> are set in click handlers, whose updates React
  renders before the next event, and are reset after an \<open>await\<close>, so an older render can
  only disable more buttons, and a click that it blocks is a step that does not happen.
\<close>

datatype caller = FromCard | FromRetryAll

text \<open>
  A call of \<open>handleRetryVideo\<close> (of \<open>Home\<close>) that has found its scene and has not returned
  yet, named by its \<open>AbortController\<close>.
\<close>

record attempt =
  a_ctrl :: nat
  a_scene :: int
  a_caller :: caller

text \<open>
  Where \<open>handleRetryAllFailed\<close> stands: not running; suspended at
  \<open>await handleRetryVideo(sceneNumber)\<close> with the scene numbers still to come, either on a
  running attempt or on a promise that has resolved already; or returned, with the
  \<open>finally\<close> of the videos view still to run.
\<close>

datatype all_loop =
    Idle
  | Awaiting "int list" nat
  | Continuing "int list"
  | Finishing

record retry_state =
  rs_videos :: "generated_video list"
  rs_controllers :: "int \<Rightarrow> nat option"
  rs_aborted :: "nat set"
  rs_running :: "attempt list"
  rs_display :: display_state
  rs_card_done :: "int list"
  rs_loop :: all_loop
  rs_next :: nat


text \<open>
  \<open>handleRetryVideo\<close> of \<open>Home\<close> up to its first \<open>await\<close>: without the scene it returns;
  otherwise it aborts and removes the controller that the map holds for the scene, installs
  a fresh one and marks the videos of the scene as generating. The result tells whether an
  attempt was started.
\<close>

definition start_retry :: "scene list \<Rightarrow> caller \<Rightarrow> int \<Rightarrow> retry_state \<Rightarrow> nat option \<times> retry_state" where
  "start_retry scenes who sceneNumber st =
     (case find (\<lambda>s. sc_scene s = sceneNumber) scenes of
        None \<Rightarrow> (None, st)
      | Some sc \<Rightarrow>
          (let st1 = (case rs_controllers st sceneNumber of
                        None \<Rightarrow> st
                      | Some existing \<Rightarrow>
                          st\<lparr>rs_aborted := insert existing (rs_aborted st),
                             rs_controllers := (rs_controllers st)(sceneNumber := None)\<rparr>);
               c = rs_next st1
           in (Some c,
               st1\<lparr>rs_controllers := (rs_controllers st1)(sceneNumber := Some c),
                   rs_videos := apply_update (MarkGenerating sceneNumber) (rs_videos st1),
                   rs_running := rs_running st1 @ [\<lparr>a_ctrl = c, a_scene = sceneNumber, a_caller = who\<rparr>],
                   rs_next := Suc c\<rparr>)))"

text \<open>
  \<open>handleRetryVideo\<close> of the videos view up to its \<open>await onRetryVideo(sceneNumber)\<close>.
\<close>

definition handleRetryVideo_card :: "scene list \<Rightarrow> int \<Rightarrow> retry_state \<Rightarrow> retry_state" where
  "handleRetryVideo_card scenes sceneNumber st =
     (if set_has (retryingScenes (rs_display st)) sceneNumber then st
      else
        (let st1 = st\<lparr>rs_display := (rs_display st)
                        \<lparr>retryingScenes := set_add (retryingScenes (rs_display st)) sceneNumber\<rparr>\<rparr>
         in case start_retry scenes FromCard sceneNumber st1 of
              (None, st2) \<Rightarrow> st2\<lparr>rs_card_done := rs_card_done st2 @ [sceneNumber]\<rparr>
            | (Some c, st2) \<Rightarrow> st2))"

text \<open>The \<open>finally\<close> of the card's handler, once \<open>onRetryVideo\<close> has resolved.\<close>

definition card_finally :: "int \<Rightarrow> retry_state \<Rightarrow> retry_state" where
  "card_finally sceneNumber st =
     (if sceneNumber \<in> set (rs_card_done st) then
        st\<lparr>rs_display := (rs_display st)
               \<lparr>retryingScenes := set_delete (retryingScenes (rs_display st)) sceneNumber\<rparr>,
           rs_card_done := remove1 sceneNumber (rs_card_done st)\<rparr>
      else st)"

text \<open>
  The \<open>for\<close> loop of \<open>handleRetryAllFailed\<close> from the scene numbers still to come up to
  its next \<open>await\<close> or its end. \<open>runs_now k\<close> tells whether React runs the updater of the
  \<open>k\<close>-th call of \<open>setGeneratedVideos\<close> that the step makes during the call.
\<close>

fun all_turns :: "scene list \<Rightarrow> (nat \<Rightarrow> bool) \<Rightarrow> nat \<Rightarrow> int list \<Rightarrow> retry_state \<Rightarrow> retry_state" where
  "all_turns scenes runs_now k [] st = st\<lparr>rs_loop := Finishing\<rparr>"
| "all_turns scenes runs_now k (sceneNumber # rest) st =
     (if read_in_updater (runs_now k) False (shouldRetry sceneNumber (rs_videos st)) then
        (case start_retry scenes FromRetryAll sceneNumber st of
           (None, st1) \<Rightarrow> st1\<lparr>rs_loop := Continuing rest\<rparr>
         | (Some c, st1) \<Rightarrow> st1\<lparr>rs_loop := Awaiting rest c\<rparr>)
      else all_turns scenes runs_now (Suc k) rest st)"

text \<open>
  A click on the button that retries all failed videos. The button is disabled while
  \<open>retryingAll\<close> is set, and the handler itself has no guard.
\<close>

definition handleRetryAllFailed_click :: "scene list \<Rightarrow> (nat \<Rightarrow> bool) \<Rightarrow> retry_state \<Rightarrow> retry_state" where
  "handleRetryAllFailed_click scenes runs_now st =
     (if retryingAll (rs_display st) then st
      else all_turns scenes runs_now 1
             (read_in_updater (runs_now 0) [] (failedSceneNumbers (rs_videos st)))
             (st\<lparr>rs_display := (rs_display st)\<lparr>retryingAll := True\<rparr>\<rparr>))"

text \<open>The loop after \<open>await handleRetryVideo(sceneNumber)\<close> has resolved.\<close>

definition all_resume :: "scene list \<Rightarrow> (nat \<Rightarrow> bool) \<Rightarrow> retry_state \<Rightarrow> retry_state" where
  "all_resume scenes runs_now st =
     (case rs_loop st of Continuing rest \<Rightarrow> all_turns scenes runs_now 0 rest st | _ \<Rightarrow> st)"

text \<open>The \<open>finally\<close> of \<open>handleRetryAllFailed\<close> of the videos view.\<close>

definition all_finally :: "retry_state \<Rightarrow> retry_state" where
  "all_finally st =
     (case rs_loop st of
        Finishing \<Rightarrow> st\<lparr>rs_display := (rs_display st)\<lparr>retryingAll := False\<rparr>, rs_loop := Idle\<rparr>
      | _ \<Rightarrow> st)"

text \<open>
  The end of an attempt. One whose signal is not aborted ends by recording the video as
  completed or as failed; an aborted one records nothing. Either way the \<open>finally\<close> block
  deletes the entry that the controller map holds for the scene, and the promise that the
  caller awaits resolves.
\<close>

datatype attempt_result = Succeeded "string option" | Failed string

definition result_update :: "int \<Rightarrow> attempt_result \<Rightarrow> video_update" where
  "result_update n res = (case res of Succeeded url \<Rightarrow> MarkCompleted n url | Failed msg \<Rightarrow> MarkFailed n msg)"

definition settle :: "nat \<Rightarrow> attempt_result \<Rightarrow> retry_state \<Rightarrow> retry_state" where
  "settle c res st =
     (case find (\<lambda>a. a_ctrl a = c) (rs_running st) of
        None \<Rightarrow> st
      | Some a \<Rightarrow>
          (let st1 = (if c \<in> rs_aborted st then st
                      else st\<lparr>rs_videos := apply_update (result_update (a_scene a) res) (rs_videos st)\<rparr>);
               st2 = st1\<lparr>rs_controllers := (rs_controllers st1)(a_scene a := None),
                         rs_running := filter (\<lambda>b. a_ctrl b \<noteq> c) (rs_running st1)\<rparr>
           in case a_caller a of
                FromCard \<Rightarrow> st2\<lparr>rs_card_done := rs_card_done st2 @ [a_scene a]\<rparr>
              | FromRetryAll \<Rightarrow>
                  (case rs_loop st2 of
                     Awaiting rest c' \<Rightarrow> if c' = c then st2\<lparr>rs_loop := Continuing rest\<rparr> else st2
                   | _ \<Rightarrow> st2)))"

datatype event =
    CardClick int
  | CardFinally int
  | AllClick "nat \<Rightarrow> bool"
  | AllResume "nat \<Rightarrow> bool"
  | AllFinally
  | Settle nat attempt_result

fun step :: "scene list \<Rightarrow> event \<Rightarrow> retry_state \<Rightarrow> retry_state" where
  "step scenes (CardClick n) st = handleRetryVideo_card scenes n st"
| "step scenes (CardFinally n) st = card_finally n st"
| "step scenes (AllClick runs_now) st = handleRetryAllFailed_click scenes runs_now st"
| "step scenes (AllResume runs_now) st = all_resume scenes runs_now st"
| "step scenes AllFinally st = all_finally st"
| "step scenes (Settle c res) st = settle c res st"

definition run :: "scene list \<Rightarrow> event list \<Rightarrow> retry_state \<Rightarrow> retry_state" where
  "run scenes events st = fold (step scenes) events st"










section \<open>Properties of the merge selection\<close>

lemma selection_ok_empty: "selection_ok videos []"
  by (simp add: selection_ok_def set_size_def)

lemma checkbox_toggle_ok:
  assumes "selection_ok videos sel" and "video \<in> set videos"
  shows "selection_ok videos (checkbox_toggle video sel)"
proof (cases "vh_status video = ''completed''")
  case False
  then show ?thesis
    using assms by (simp add: checkbox_toggle_def handleVideoSelect_def)
next
  case True
  then have mem: "vh_id video \<in> completed_ids videos"
    using assms(2) by (auto simp: completed_ids_def)
  show ?thesis
  proof (cases "vh_id video \<in> set sel")
    case True
    have "length sel \<le> 19"
      using assms(1) by (simp add: selection_ok_def set_size_def)
    then have "length (filter (\<lambda>y. y \<noteq> vh_id video) sel) \<le> 19"
      by (rule le_trans [OF length_filter_le])
    then show ?thesis
      using assms(1) True \<open>vh_status video = ''completed''\<close>
      by (auto simp: checkbox_toggle_def handleVideoSelect_def selection_ok_def set_has_def
          set_delete_def set_size_def)
  next
    case False
    then show ?thesis
      using assms(1) mem \<open>vh_status video = ''completed''\<close>
      by (auto simp: checkbox_toggle_def handleVideoSelect_def selection_ok_def set_has_def
          set_add_def set_size_def)
  qed
qed

lemma fold_checkbox_toggle_ok:
  "set clicks \<subseteq> set videos \<Longrightarrow> selection_ok videos sel \<Longrightarrow>
   selection_ok videos (fold checkbox_toggle clicks sel)"
  by (induction clicks arbitrary: sel) (simp_all add: checkbox_toggle_ok)

text \<open>
  C10. Every toggle of a video card keeps the selection a duplicate-free set of at most 19 ids
  of completed videos. Toggling a video that is not completed leaves the selection as it is;
  toggling a selected video removes it; toggling an unselected completed video when 19 are
  selected leaves the selection as it is, and adds the video otherwise.
\<close>

theorem handleVideoSelect_invariants:
  assumes "selection_ok videos sel" and "video \<in> set videos"
  shows "selection_ok videos (checkbox_toggle video sel)
    \<and> (vh_status video \<noteq> ''completed'' \<longrightarrow> checkbox_toggle video sel = sel)
    \<and> (vh_status video = ''completed'' \<and> vh_id video \<in> set sel \<longrightarrow>
         vh_id video \<notin> set (checkbox_toggle video sel)
         \<and> checkbox_toggle video sel = filter (\<lambda>x. x \<noteq> vh_id video) sel)
    \<and> (vh_status video = ''completed'' \<and> vh_id video \<notin> set sel \<and> set_size sel \<ge> 19 \<longrightarrow>
         checkbox_toggle video sel = sel)
    \<and> (vh_status video = ''completed'' \<and> vh_id video \<notin> set sel \<and> set_size sel < 19 \<longrightarrow>
         checkbox_toggle video sel = sel @ [vh_id video])"
proof -
  have "selection_ok videos (checkbox_toggle video sel)"
    using assms by (rule checkbox_toggle_ok)
  moreover have "vh_status video \<noteq> ''completed'' \<longrightarrow> checkbox_toggle video sel = sel"
    by (simp add: checkbox_toggle_def handleVideoSelect_def)
  moreover have "vh_status video = ''completed'' \<and> vh_id video \<in> set sel \<longrightarrow>
         vh_id video \<notin> set (checkbox_toggle video sel)
         \<and> checkbox_toggle video sel = filter (\<lambda>x. x \<noteq> vh_id video) sel"
    by (auto simp: checkbox_toggle_def handleVideoSelect_def set_has_def set_delete_def)
  moreover have "vh_status video = ''completed'' \<and> vh_id video \<notin> set sel \<and> set_size sel \<ge> 19 \<longrightarrow>
         checkbox_toggle video sel = sel"
    by (simp add: checkbox_toggle_def handleVideoSelect_def set_has_def)
  moreover have "vh_status video = ''completed'' \<and> vh_id video \<notin> set sel \<and> set_size sel < 19 \<longrightarrow>
         checkbox_toggle video sel = sel @ [vh_id video]"
    by (simp add: checkbox_toggle_def handleVideoSelect_def set_has_def set_add_def)
  ultimately show ?thesis by blast
qed

theorem handleVideoSelect_invariants_witness:
  "selection_ok [\<lparr>vh_id = ''v1'', vh_status = ''completed'', vh_title = None, vh_videoUrl = None\<rparr>] []
   \<and> selection_ok [\<lparr>vh_id = ''v1'', vh_status = ''completed'', vh_title = None, vh_videoUrl = None\<rparr>]
        (checkbox_toggle \<lparr>vh_id = ''v1'', vh_status = ''completed'', vh_title = None, vh_videoUrl = None\<rparr> [])
   \<and> checkbox_toggle \<lparr>vh_id = ''v1'', vh_status = ''completed'', vh_title = None, vh_videoUrl = None\<rparr> []
       = [''v1'']"
proof -
  let ?v = "\<lparr>vh_id = ''v1'', vh_status = ''completed'', vh_title = None, vh_videoUrl = None\<rparr>"
  have h1: "selection_ok [?v] []" by (rule selection_ok_empty)
  have h2: "?v \<in> set [?v]" by simp
  from handleVideoSelect_invariants [OF h1 h2] h1 show ?thesis
    by (auto simp: set_size_def)
qed

section \<open>Properties of the bulk submission\<close>

lemma length_initialProgress: "length (initialProgress ls) = length ls"
  by (simp add: initialProgress_def)

lemma prompts_initialProgress: "map vg_prompt (initialProgress ls) = ls"
  by (simp add: initialProgress_def comp_def)

lemma status_initialProgress: "u \<in> set (initialProgress ls) \<Longrightarrow> vg_status u = ''pending''"
  by (auto simp: initialProgress_def)

text \<open>
  C5. Let N be the number of non-blank lines of the prompt box. When N is 0 or more than 200,
  \<open>handleGenerate\<close> shows a toast and returns: the progress list and the generating flag are
  as before and nothing is handed to \<open>fetch\<close>. When N is between 1 and 200 the progress list
  is replaced by N pending entries that carry the trimmed lines in their order, and the request
  carries the same lines.
\<close>

theorem handleGenerate_bulk_bounds:
  "(length (promptLines prompts) = 0 \<or> length (promptLines prompts) > 200 \<longrightarrow>
      (\<exists>t. handleGenerate_bulk st prompts ar = (Some t, st\<lparr>pollingInterval := None\<rparr>, None))
      \<and> generationProgress (fst (snd (handleGenerate_bulk st prompts ar))) = generationProgress st
      \<and> isGenerating (fst (snd (handleGenerate_bulk st prompts ar))) = isGenerating st
      \<and> snd (snd (handleGenerate_bulk st prompts ar)) = None)
   \<and> (1 \<le> length (promptLines prompts) \<and> length (promptLines prompts) \<le> 200 \<longrightarrow>
      fst (handleGenerate_bulk st prompts ar) = None
      \<and> generationProgress (fst (snd (handleGenerate_bulk st prompts ar)))
          = initialProgress (promptLines prompts)
      \<and> length (generationProgress (fst (snd (handleGenerate_bulk st prompts ar))))
          = length (promptLines prompts)
      \<and> map vg_prompt (generationProgress (fst (snd (handleGenerate_bulk st prompts ar))))
          = promptLines prompts
      \<and> (\<forall>u \<in> set (generationProgress (fst (snd (handleGenerate_bulk st prompts ar)))).
            vg_status u = ''pending'')
      \<and> snd (snd (handleGenerate_bulk st prompts ar))
          = Some \<lparr>br_prompts = promptLines prompts, br_aspectRatio = ar\<rparr>)"
proof (intro conjI impI)
  assume rej: "length (promptLines prompts) = 0 \<or> length (promptLines prompts) > 200"
  then show "\<exists>t. handleGenerate_bulk st prompts ar = (Some t, st\<lparr>pollingInterval := None\<rparr>, None)"
    by (auto simp: handleGenerate_bulk_def Let_def)
  from rej show "generationProgress (fst (snd (handleGenerate_bulk st prompts ar))) = generationProgress st"
    by (auto simp: handleGenerate_bulk_def Let_def)
  from rej show "isGenerating (fst (snd (handleGenerate_bulk st prompts ar))) = isGenerating st"
    by (auto simp: handleGenerate_bulk_def Let_def)
  from rej show "snd (snd (handleGenerate_bulk st prompts ar)) = None"
    by (auto simp: handleGenerate_bulk_def Let_def)
next
  assume "1 \<le> length (promptLines prompts) \<and> length (promptLines prompts) \<le> 200"
  then have run: "handleGenerate_bulk st prompts ar =
      (None,
       st\<lparr>pollingInterval := None, generationProgress := initialProgress (promptLines prompts),
          isGenerating := True\<rparr>,
       Some \<lparr>br_prompts = promptLines prompts, br_aspectRatio = ar\<rparr>)"
    by (auto simp: handleGenerate_bulk_def Let_def)
  show "fst (handleGenerate_bulk st prompts ar) = None"
    by (simp add: run)
  show "generationProgress (fst (snd (handleGenerate_bulk st prompts ar)))
          = initialProgress (promptLines prompts)"
    by (simp add: run)
  show "length (generationProgress (fst (snd (handleGenerate_bulk st prompts ar))))
          = length (promptLines prompts)"
    by (simp add: run length_initialProgress)
  show "map vg_prompt (generationProgress (fst (snd (handleGenerate_bulk st prompts ar))))
          = promptLines prompts"
    by (simp add: run prompts_initialProgress)
  show "\<forall>u \<in> set (generationProgress (fst (snd (handleGenerate_bulk st prompts ar)))).
            vg_status u = ''pending''"
    by (simp add: run status_initialProgress)
  show "snd (snd (handleGenerate_bulk st prompts ar))
          = Some \<lparr>br_prompts = promptLines prompts, br_aspectRatio = ar\<rparr>"
    by (simp add: run)
qed

lemma promptLines_two: "promptLines [CHR ''a'', CHR '' '', newline, newline, CHR ''b''] = [''a'', ''b'']"
  by (simp add: promptLines_def js_trim_def is_js_space_def newline_def)

lemma promptLines_blank: "promptLines [CHR '' '', newline, newline] = []"
  by (simp add: promptLines_def js_trim_def is_js_space_def newline_def)

theorem handleGenerate_bulk_bounds_witness:
  "generationProgress (fst (snd (handleGenerate_bulk
       \<lparr>generationProgress = [], isGenerating = False, pollingInterval = None\<rparr>
       [CHR ''a'', CHR '' '', newline, newline, CHR ''b''] ''landscape'')))
     = initialProgress [''a'', ''b'']
   \<and> snd (snd (handleGenerate_bulk
       \<lparr>generationProgress = [], isGenerating = False, pollingInterval = None\<rparr>
       [CHR '' '', newline, newline] ''landscape'')) = None"
  using handleGenerate_bulk_bounds [of "[CHR ''a'', CHR '' '', newline, newline, CHR ''b'']"
      "\<lparr>generationProgress = [], isGenerating = False, pollingInterval = None\<rparr>" "''landscape''"]
    handleGenerate_bulk_bounds [of "[CHR '' '', newline, newline]"
      "\<lparr>generationProgress = [], isGenerating = False, pollingInterval = None\<rparr>" "''landscape''"]
  by (simp add: promptLines_two promptLines_blank)

section \<open>Properties of the streamed generation\<close>

lemma split_nl_not_Nil: "split_nl s \<noteq> []"
  by (induction s) (auto split: list.splits)

lemma split_nl_Cons:
  "split_nl (c # cs) =
     (if c = newline then [] # split_nl cs else (c # hd (split_nl cs)) # tl (split_nl cs))"
  using split_nl_not_Nil [of cs] by (cases "split_nl cs") auto

lemma split_nl_append:
  "split_nl (x @ y) = butlast (split_nl x) @ split_nl (last (split_nl x) @ y)"
proof (induction x)
  case Nil
  show ?case by simp
next
  case (Cons c x)
  show ?case
  proof (cases "c = newline")
    case True
    then show ?thesis
      using Cons.IH split_nl_not_Nil [of x] by simp
  next
    case False
    obtain l ls where x: "split_nl x = l # ls"
      using split_nl_not_Nil [of x] by (cases "split_nl x") auto
    show ?thesis
    proof (cases ls)
      case Nil
      have "split_nl (c # x @ y) = (c # hd (split_nl (l @ y))) # tl (split_nl (l @ y))"
        using False Cons.IH x Nil by (simp add: split_nl_Cons del: split_nl.simps)
      also have "\<dots> = split_nl ((c # l) @ y)"
        using False by (simp add: split_nl_Cons del: split_nl.simps)
      finally show ?thesis
        using False x Nil by simp
    next
      case (Cons l' ls')
      then show ?thesis
        using False Cons.IH x by simp
    qed
  qed
qed

lemma array_pop_split_nl: "array_pop (split_nl s) = (Some (last (split_nl s)), butlast (split_nl s))"
  by (simp add: array_pop_def split_nl_not_Nil)

lemma or_empty_Some: "or_empty (Some s) = s"
  by (simp add: or_empty_def)


lemma last_split_nl_no_newline: "newline \<notin> set (last (split_nl s))"
  by (induction s) (auto simp: split_nl_not_Nil split: list.splits)

lemma split_nl_no_newline: "newline \<notin> set b \<Longrightarrow> split_nl b = [b]"
  by (induction b) auto

lemma read_loop_eq:
  "newline \<notin> set buffer \<Longrightarrow>
   read_loop parse chunks (buffer, st) =
     (last (split_nl (buffer @ concat chunks)),
      fold (process_line parse) (complete_lines (buffer @ concat chunks)) st)"
proof (induction chunks arbitrary: buffer st)
  case Nil
  then show ?case by (simp add: split_nl_no_newline complete_lines_def)
next
  case (Cons chunk chunks)
  let ?b = "last (split_nl (buffer @ chunk))"
  have step: "read_loop parse (chunk # chunks) (buffer, st) =
      read_loop parse chunks (?b, fold (process_line parse) (butlast (split_nl (buffer @ chunk))) st)"
    by (simp add: array_pop_split_nl or_empty_Some Let_def)
  have sp: "split_nl (buffer @ concat (chunk # chunks)) =
      butlast (split_nl (buffer @ chunk)) @ split_nl (?b @ concat chunks)"
    using split_nl_append [of "buffer @ chunk" "concat chunks"] by simp
  have nb: "newline \<notin> set ?b" by (rule last_split_nl_no_newline)
  have cl: "complete_lines (buffer @ concat (chunk # chunks)) =
      butlast (split_nl (buffer @ chunk)) @ complete_lines (?b @ concat chunks)"
    unfolding complete_lines_def sp by (simp add: butlast_append split_nl_not_Nil)
  have la: "last (split_nl (buffer @ concat (chunk # chunks))) = last (split_nl (?b @ concat chunks))"
    unfolding sp by (simp add: split_nl_not_Nil)
  show ?case
    unfolding step Cons.IH [OF nb] cl la by simp
qed


lemma sse_received_dispatch_event: "sse_received (dispatch_event e st) = sse_received st"
  by (cases e) (simp_all add: Let_def split: option.splits)

lemma sse_received_process_line:
  "sse_received (process_line parse line st) = sse_received st @ parsed_events parse [line]"
  by (simp add: process_line_def parsed_events_def List.map_filter_simps
      sse_received_dispatch_event split: option.splits)

lemma parsed_events_Cons:
  "parsed_events parse (l # ls) = parsed_events parse [l] @ parsed_events parse ls"
  by (simp add: parsed_events_def List.map_filter_simps split: option.splits)

lemma sse_received_fold:
  "sse_received (fold (process_line parse) ls st) = sse_received st @ parsed_events parse ls"
proof (induction ls arbitrary: st)
  case Nil
  show ?case by (simp add: parsed_events_def List.map_filter_simps)
next
  case (Cons l ls)
  have "sse_received (fold (process_line parse) (l # ls) st)
      = (sse_received st @ parsed_events parse [l]) @ parsed_events parse ls"
    by (simp add: Cons.IH sse_received_process_line)
  then show ?case
    by (simp add: parsed_events_Cons [of parse l ls])
qed

lemma split_nl_pieces_no_newline: "l \<in> set (split_nl s) \<Longrightarrow> newline \<notin> set l"
proof (induction s arbitrary: l)
  case Nil
  then show ?case by simp
next
  case (Cons c s)
  show ?case
  proof (cases "c = newline")
    case True
    then show ?thesis using Cons by auto
  next
    case False
    obtain h t where ht: "split_nl s = h # t"
      using split_nl_not_Nil [of s] by (cases "split_nl s") auto
    then have "l = c # h \<or> l \<in> set t" using Cons.prems False by simp
    then show ?thesis
      using Cons.IH [of h] Cons.IH [of l] ht False by auto
  qed
qed

lemma join_split_nl:
  "concat (map (\<lambda>l. l @ [newline]) (butlast (split_nl s))) @ last (split_nl s) = s"
proof (induction s)
  case Nil
  show ?case by simp
next
  case (Cons c s)
  obtain h t where ht: "split_nl s = h # t"
    using split_nl_not_Nil [of s] by (cases "split_nl s") auto
  show ?case
  proof (cases "c = newline")
    case True
    then show ?thesis using Cons.IH ht by simp
  next
    case False
    show ?thesis
    proof (cases t)
      case Nil
      then show ?thesis using Cons.IH ht False by simp
    next
      case (Cons t1 ts)
      then show ?thesis using Cons.IH ht False by simp
    qed
  qed
qed

text \<open>
  C8. Let the stream be the concatenation of the chunks. Its complete lines are the pieces
  that a newline ends: joined again, each followed by a newline, and followed by the rest
  after the last newline, they give back the stream, and neither a line nor the rest holds
  a newline. Started with an empty buffer, the read loop hands exactly these lines to the
  line handler, in order and once each, whatever the chunks are; the rest stays in the
  buffer and is not parsed. The records parsed (and logged) are those of the complete lines
  that start with \<open>data: \<close>, so no record is lost and none is parsed from a part of a line;
  two chunkings of one stream give the same final buffer and the same page state.
\<close>

theorem read_loop_chunking:
  "read_loop parse chunks ([], st) =
     (last (split_nl (concat chunks)),
      fold (process_line parse) (complete_lines (concat chunks)) st)
   \<and> concat (map (\<lambda>l. l @ [newline]) (complete_lines (concat chunks)))
       @ last (split_nl (concat chunks)) = concat chunks
   \<and> (\<forall>l \<in> set (complete_lines (concat chunks)). newline \<notin> set l)
   \<and> newline \<notin> set (last (split_nl (concat chunks)))
   \<and> sse_received (snd (read_loop parse chunks ([], st))) =
       sse_received st @
       List.map_filter (\<lambda>line. if take 6 line = ''data: '' then parse (drop 6 line) else None)
         (complete_lines (concat chunks))
   \<and> (concat chunks' = concat chunks \<longrightarrow>
       read_loop parse chunks' ([], st) = read_loop parse chunks ([], st))"
proof -
  have eq: "\<And>cs. read_loop parse cs ([], st) =
     (last (split_nl (concat cs)), fold (process_line parse) (complete_lines (concat cs)) st)"
    using read_loop_eq [of "[]"] by simp
  have j: "concat (map (\<lambda>l. l @ [newline]) (complete_lines (concat chunks)))
       @ last (split_nl (concat chunks)) = concat chunks"
    unfolding complete_lines_def by (rule join_split_nl)
  have n1: "\<forall>l \<in> set (complete_lines (concat chunks)). newline \<notin> set l"
    unfolding complete_lines_def
    by (auto dest: in_set_butlastD split_nl_pieces_no_newline)
  have n2: "newline \<notin> set (last (split_nl (concat chunks)))"
    by (rule last_split_nl_no_newline)
  have l6: "length ''data: '' = 6" by simp
  have p: "parsed_events parse ls =
      List.map_filter (\<lambda>line. if take 6 line = ''data: '' then parse (drop 6 line) else None) ls" for ls
    unfolding parsed_events_def startsWith_def substring_from_def l6 by (rule refl)
  have r: "sse_received (snd (read_loop parse chunks ([], st))) =
       sse_received st @
       List.map_filter (\<lambda>line. if take 6 line = ''data: '' then parse (drop 6 line) else None)
         (complete_lines (concat chunks))"
    by (simp add: eq sse_received_fold p)
  have c: "concat chunks' = concat chunks \<longrightarrow>
       read_loop parse chunks' ([], st) = read_loop parse chunks ([], st)"
    by (simp add: eq)
  from eq [of chunks] j n1 n2 r c show ?thesis by blast
qed

lemma read_loop_example:
  "read_loop (\<lambda>s. if s = ''a'' then Some (ErrorEvent 1 (Some ''boom'') None)
                  else if s = ''b'' then Some OtherEvent else None)
     [''data: a'' @ [newline] @ ''da'', ''ta: b'' @ [newline] @ ''note'' @ [newline] @ ''data: x'',
      [newline] @ ''data: b'']
     ([], \<lparr>currentStep = 4,
           videoProgress = [\<lparr>vp_sceneNumber = 1, vp_sceneTitle = ''A'', vp_status = ''pending'',
                              vp_videoUrl = None, vp_error = None, vp_message = None,
                              vp_timestamp = None\<rparr>],
           generatedVideos = [], currentVideoScene = 0, sse_received = []\<rparr>)
   = (''data: b'',
      \<lparr>currentStep = 4,
       videoProgress = [\<lparr>vp_sceneNumber = 1, vp_sceneTitle = ''A'', vp_status = ''failed'',
                          vp_videoUrl = None, vp_error = Some ''boom'', vp_message = None,
                          vp_timestamp = None\<rparr>],
       generatedVideos = [], currentVideoScene = 0,
       sse_received = [ErrorEvent 1 (Some ''boom'') None, OtherEvent]\<rparr>)"
  by (simp add: array_pop_def or_empty_def process_line_def startsWith_def substring_from_def
      newline_def)

theorem read_loop_chunking_witness:
  "concat [''data: a'' @ [newline] @ ''da'', ''ta: b'' @ [newline] @ ''note'' @ [newline] @ ''data: x'',
           [newline] @ ''data: b'']
     = concat [''data: a'' @ [newline] @ ''data: b'' @ [newline] @ ''note'' @ [newline]
               @ ''data: x'' @ [newline] @ ''data: b'']
   \<and> read_loop (\<lambda>s. if s = ''a'' then Some (ErrorEvent 1 (Some ''boom'') None)
                      else if s = ''b'' then Some OtherEvent else None)
        [''data: a'' @ [newline] @ ''data: b'' @ [newline] @ ''note'' @ [newline]
          @ ''data: x'' @ [newline] @ ''data: b'']
        ([], \<lparr>currentStep = 4,
              videoProgress = [\<lparr>vp_sceneNumber = 1, vp_sceneTitle = ''A'', vp_status = ''pending'',
                                 vp_videoUrl = None, vp_error = None, vp_message = None,
                                 vp_timestamp = None\<rparr>],
              generatedVideos = [], currentVideoScene = 0, sse_received = []\<rparr>)
     = (''data: b'',
        \<lparr>currentStep = 4,
         videoProgress = [\<lparr>vp_sceneNumber = 1, vp_sceneTitle = ''A'', vp_status = ''failed'',
                            vp_videoUrl = None, vp_error = Some ''boom'', vp_message = None,
                            vp_timestamp = None\<rparr>],
         generatedVideos = [], currentVideoScene = 0,
         sse_received = [ErrorEvent 1 (Some ''boom'') None, OtherEvent]\<rparr>)"
proof -
  let ?parse = "\<lambda>s. if s = ''a'' then Some (ErrorEvent 1 (Some ''boom'') None)
                    else if s = ''b'' then Some OtherEvent else None"
  let ?split = "[''data: a'' @ [newline] @ ''da'', ''ta: b'' @ [newline] @ ''note'' @ [newline] @ ''data: x'',
           [newline] @ ''data: b'']"
  let ?whole = "[''data: a'' @ [newline] @ ''data: b'' @ [newline] @ ''note'' @ [newline]
               @ ''data: x'' @ [newline] @ ''data: b'']"
  let ?st = "\<lparr>currentStep = 4,
              videoProgress = [\<lparr>vp_sceneNumber = 1, vp_sceneTitle = ''A'', vp_status = ''pending'',
                                 vp_videoUrl = None, vp_error = None, vp_message = None,
                                 vp_timestamp = None\<rparr>],
              generatedVideos = [], currentVideoScene = 0, sse_received = []\<rparr>"
  have h: "concat ?split = concat ?whole" by simp
  have "read_loop ?parse ?whole ([], ?st) = read_loop ?parse ?split ([], ?st)"
    using read_loop_chunking [of ?parse ?split ?st ?whole] h by simp
  then show ?thesis
    using h read_loop_example by simp
qed

section \<open>Properties of the merge request\<close>

lemma filter_eq_singleton: "distinct zs \<Longrightarrow> k \<in> set zs \<Longrightarrow> filter (\<lambda>x. k = x) zs = [k]"
  by (induction zs) (auto simp: filter_empty_conv)

lemma filter_key_singleton:
  assumes "distinct (map f zs)" and "k \<in> set zs"
  shows "filter (\<lambda>x. f k = f x) zs = [k]"
proof -
  have inj: "inj_on f (set zs)" and d: "distinct zs"
    using assms(1) by (simp_all add: distinct_map)
  have "\<And>x. x \<in> set zs \<Longrightarrow> (f k = f x) = (k = x)"
    using inj assms(2) by (auto dest: inj_onD)
  then have "filter (\<lambda>x. f k = f x) zs = filter (\<lambda>x. k = x) zs"
    by (intro filter_cong refl)
  then show ?thesis
    using filter_eq_singleton [OF d assms(2)] by simp
qed

lemma distinct_map_mset_cong:
  assumes "mset xs = mset ys" and "distinct (map f xs)"
  shows "distinct (map f ys)"
proof -
  have "mset (map f xs) = mset (map f ys)"
    using assms(1) by (metis mset_map)
  then show ?thesis
    using assms(2) mset_eq_imp_distinct_iff by blast
qed

lemma sort_key_perm_distinct:
  assumes "mset xs = mset ys" and "distinct (map f xs)"
  shows "sort_key f xs = sort_key f ys"
proof (rule properties_for_sort_key)
  show "mset (sort_key f ys) = mset xs" using assms(1) by simp
  show "sorted (map f (sort_key f ys))" by simp
  fix k assume k: "k \<in> set (sort_key f ys)"
  have sxy: "set xs = set ys" using assms(1) by (rule mset_eq_setD)
  have kx: "k \<in> set xs" using k sxy by simp
  have dy: "distinct (map f ys)" using assms by (rule distinct_map_mset_cong)
  have ds: "distinct (map f (sort_key f ys))"
    by (rule distinct_map_mset_cong [of ys]) (simp_all add: dy)
  have "filter (\<lambda>x. f k = f x) (sort_key f ys) = [k]"
    using ds k by (rule filter_key_singleton)
  moreover have "filter (\<lambda>x. f k = f x) xs = [k]"
    using assms(2) kx by (rule filter_key_singleton)
  ultimately show "filter (\<lambda>x. f k = f x) (sort_key f ys) = filter (\<lambda>x. f k = f x) xs"
    by simp
qed


lemma completedVideos_mset: "mset xs = mset ys \<Longrightarrow> mset (completedVideos xs) = mset (completedVideos ys)"
  by (simp add: completedVideos_def)

lemma completedWithUrl_mset: "mset xs = mset ys \<Longrightarrow> mset (completedWithUrl xs) = mset (completedWithUrl ys)"
  by (simp add: completedWithUrl_def)

lemma videosToMerge_perm:
  assumes "mset videos' = mset videos" and "distinct (map gv_sceneNumber (completedVideos videos))"
  shows "videosToMerge videos' = videosToMerge videos"
proof -
  have "mset (completedVideos videos) = mset (completedVideos videos')"
    by (rule completedVideos_mset [OF assms(1) [symmetric]])
  then have "sort_key gv_sceneNumber (completedVideos videos)
      = sort_key gv_sceneNumber (completedVideos videos')"
    using assms(2) by (rule sort_key_perm_distinct)
  then show ?thesis by (simp add: videosToMerge_def)
qed

lemma history_merge_items_perm:
  assumes "mset hs' = mset hs"
    and "distinct (map (title_scene_number parseInt) (completedWithUrl hs))"
  shows "history_merge_items parseInt hs' = history_merge_items parseInt hs"
proof -
  have "mset (completedWithUrl hs) = mset (completedWithUrl hs')"
    by (rule completedWithUrl_mset [OF assms(1) [symmetric]])
  then have "sort_key (title_scene_number parseInt) (completedWithUrl hs)
      = sort_key (title_scene_number parseInt) (completedWithUrl hs')"
    using assms(2) by (rule sort_key_perm_distinct)
  then show ?thesis by (simp add: history_merge_items_def sortedVideos_def)
qed

lemma sorted_videosToMerge: "sorted (map mi_sceneNumber (videosToMerge videos))"
proof -
  have "map mi_sceneNumber (videosToMerge videos)
      = map gv_sceneNumber (sort_key gv_sceneNumber (completedVideos videos))"
    by (simp add: videosToMerge_def comp_def)
  then show ?thesis by simp
qed

lemma mset_videosToMerge:
  "mset (videosToMerge videos) =
     image_mset (\<lambda>v. \<lparr>mi_sceneNumber = gv_sceneNumber v, mi_videoUrl = gv_videoUrl v\<rparr>)
       (filter_mset (\<lambda>v. gv_status v = ''completed'') (mset videos))"
  by (simp add: videosToMerge_def completedVideos_def)

lemma stable_videosToMerge:
  "filter (\<lambda>i. mi_sceneNumber i = k) (videosToMerge videos) =
     map (\<lambda>v. \<lparr>mi_sceneNumber = gv_sceneNumber v, mi_videoUrl = gv_videoUrl v\<rparr>)
       (filter (\<lambda>v. gv_sceneNumber v = k) (filter (\<lambda>v. gv_status v = ''completed'') videos))"
proof -
  have "filter (\<lambda>i. mi_sceneNumber i = k) (videosToMerge videos) =
      map (\<lambda>v. \<lparr>mi_sceneNumber = gv_sceneNumber v, mi_videoUrl = gv_videoUrl v\<rparr>)
        (filter (\<lambda>v. gv_sceneNumber v = k) (sort_key gv_sceneNumber (completedVideos videos)))"
    by (simp add: videosToMerge_def filter_map comp_def)
  then show ?thesis
    by (simp only: sort_key_stable completedVideos_def)
qed

lemma enumerate_index_map_from:
  "map (\<lambda>(idx, v). f idx) (enumerate n xs) = map f [n..<n + length xs]"
proof (induction xs arbitrary: n)
  case Nil
  show ?case by simp
next
  case (Cons x xs)
  have "n < n + length (x # xs)" by simp
  then have "[n..<n + length (x # xs)] = n # [Suc n..<n + length (x # xs)]"
    by (rule upt_conv_Cons)
  then have "[n..<n + length (x # xs)] = n # [Suc n..<Suc n + length xs]"
    by simp
  then show ?case using Cons.IH [of "Suc n"] by simp
qed

lemma enumerate_index_map:
  "map (\<lambda>(idx, v). f idx) (enumerate 0 xs) = map f [0..<length xs]"
  using enumerate_index_map_from [of f 0 xs] by simp

lemma enumerate_value_map:
  "map (\<lambda>(idx, v). g v) (enumerate n xs) = map g xs"
  by (induction xs arbitrary: n) simp_all

lemma history_merge_items_urls:
  "map mi_videoUrl (history_merge_items parseInt hs) = map vh_videoUrl (sortedVideos parseInt hs)"
proof -
  have "map mi_videoUrl (history_merge_items parseInt hs)
      = map (\<lambda>(idx, v). vh_videoUrl v) (enumerate 0 (sortedVideos parseInt hs))"
    by (simp add: history_merge_items_def comp_def split_beta)
  then show ?thesis by (simp only: enumerate_value_map)
qed

lemma history_merge_items_numbers:
  "map mi_sceneNumber (history_merge_items parseInt hs)
     = map (\<lambda>i. int i + 1) [0..<length (sortedVideos parseInt hs)]"
proof -
  have "map mi_sceneNumber (history_merge_items parseInt hs)
      = map (\<lambda>(idx, v). int idx + 1) (enumerate 0 (sortedVideos parseInt hs))"
    by (simp add: history_merge_items_def comp_def split_beta)
  then show ?thesis by (simp only: enumerate_index_map)
qed

lemma truthy_string_iff: "truthy_string x \<longleftrightarrow> x \<noteq> None \<and> x \<noteq> Some []"
  by (cases x) (simp_all add: truthy_string_def)

lemma completedWithUrl_eq:
  "completedWithUrl hs =
     filter (\<lambda>v. vh_status v = ''completed'' \<and> vh_videoUrl v \<noteq> None \<and> vh_videoUrl v \<noteq> Some []) hs"
  by (simp add: completedWithUrl_def truthy_string_iff)

text \<open>
  C6 (as the code has it). The merge request lists the completed videos, all of them and
  nothing else, in ascending order of their sort key, and videos with equal keys in the order
  of the input (the sort is stable). The key is the scene number in the videos view. On the
  history page the completed videos are those with a non-empty URL, the key is what
  \<open>parseInt\<close> returns for the digits after \<open>Scene \<close> in the title (for \<open>0\<close> without them),
  and the request numbers the sorted videos 1, 2, ... . When the keys of the completed videos
  are pairwise distinct, two input lists that are permutations of each other give the same
  request list.
\<close>

theorem merge_order_invariant_distinct_keys:
  "mset (videosToMerge videos) =
     image_mset (\<lambda>v. \<lparr>mi_sceneNumber = gv_sceneNumber v, mi_videoUrl = gv_videoUrl v\<rparr>)
       (filter_mset (\<lambda>v. gv_status v = ''completed'') (mset videos))
   \<and> sorted (map mi_sceneNumber (videosToMerge videos))
   \<and> (\<forall>k. filter (\<lambda>i. mi_sceneNumber i = k) (videosToMerge videos) =
          map (\<lambda>v. \<lparr>mi_sceneNumber = gv_sceneNumber v, mi_videoUrl = gv_videoUrl v\<rparr>)
            (filter (\<lambda>v. gv_sceneNumber v = k) (filter (\<lambda>v. gv_status v = ''completed'') videos)))
   \<and> (mset videos' = mset videos
        \<and> distinct (map gv_sceneNumber (filter (\<lambda>v. gv_status v = ''completed'') videos)) \<longrightarrow>
      videosToMerge videos' = videosToMerge videos
      \<and> snd (snd (handleMergeVideos st videos' pid)) = snd (snd (handleMergeVideos st videos pid)))
   \<and> map mi_videoUrl (history_merge_items parseInt hs) = map vh_videoUrl (sortedVideos parseInt hs)
   \<and> map mi_sceneNumber (history_merge_items parseInt hs)
       = map (\<lambda>i. int i + 1) [0..<length (sortedVideos parseInt hs)]
   \<and> mset (sortedVideos parseInt hs) =
       filter_mset (\<lambda>v. vh_status v = ''completed'' \<and> vh_videoUrl v \<noteq> None \<and> vh_videoUrl v \<noteq> Some [])
         (mset hs)
   \<and> sorted (map (title_scene_number parseInt) (sortedVideos parseInt hs))
   \<and> (\<forall>k. filter (\<lambda>v. title_scene_number parseInt v = k) (sortedVideos parseInt hs) =
          filter (\<lambda>v. title_scene_number parseInt v = k)
            (filter (\<lambda>v. vh_status v = ''completed'' \<and> vh_videoUrl v \<noteq> None \<and> vh_videoUrl v \<noteq> Some [])
               hs))
   \<and> (mset hs' = mset hs
        \<and> distinct (map (title_scene_number parseInt)
             (filter (\<lambda>v. vh_status v = ''completed'' \<and> vh_videoUrl v \<noteq> None \<and> vh_videoUrl v \<noteq> Some [])
                hs)) \<longrightarrow>
      history_merge_items parseInt hs' = history_merge_items parseInt hs)"
proof -
  have v1: "mset (videosToMerge videos) =
     image_mset (\<lambda>v. \<lparr>mi_sceneNumber = gv_sceneNumber v, mi_videoUrl = gv_videoUrl v\<rparr>)
       (filter_mset (\<lambda>v. gv_status v = ''completed'') (mset videos))"
    by (rule mset_videosToMerge)
  have v2: "sorted (map mi_sceneNumber (videosToMerge videos))"
    by (rule sorted_videosToMerge)
  have v3: "\<forall>k. filter (\<lambda>i. mi_sceneNumber i = k) (videosToMerge videos) =
          map (\<lambda>v. \<lparr>mi_sceneNumber = gv_sceneNumber v, mi_videoUrl = gv_videoUrl v\<rparr>)
            (filter (\<lambda>v. gv_sceneNumber v = k) (filter (\<lambda>v. gv_status v = ''completed'') videos))"
    by (intro allI) (rule stable_videosToMerge)
  have v4: "videosToMerge videos' = videosToMerge videos
      \<and> snd (snd (handleMergeVideos st videos' pid)) = snd (snd (handleMergeVideos st videos pid))"
    if a: "mset videos' = mset videos
        \<and> distinct (map gv_sceneNumber (filter (\<lambda>v. gv_status v = ''completed'') videos))"
  proof -
    from a have a1: "mset videos' = mset videos"
      and a2: "distinct (map gv_sceneNumber (completedVideos videos))"
      by (simp_all add: completedVideos_def)
    have v: "videosToMerge videos' = videosToMerge videos"
      using a1 a2 by (rule videosToMerge_perm)
    have "size (mset (completedVideos videos')) = size (mset (completedVideos videos))"
      using completedVideos_mset [OF a1] by simp
    then have "length (completedVideos videos') = length (completedVideos videos)"
      by simp
    then have "snd (snd (handleMergeVideos st videos' pid)) = snd (snd (handleMergeVideos st videos pid))"
      by (simp add: handleMergeVideos_def v)
    with v show ?thesis by (rule conjI)
  qed
  have h1: "map mi_videoUrl (history_merge_items parseInt hs) = map vh_videoUrl (sortedVideos parseInt hs)"
    by (rule history_merge_items_urls)
  have h2: "map mi_sceneNumber (history_merge_items parseInt hs)
       = map (\<lambda>i. int i + 1) [0..<length (sortedVideos parseInt hs)]"
    by (rule history_merge_items_numbers)
  have h3: "mset (sortedVideos parseInt hs) =
       filter_mset (\<lambda>v. vh_status v = ''completed'' \<and> vh_videoUrl v \<noteq> None \<and> vh_videoUrl v \<noteq> Some [])
         (mset hs)"
    by (simp add: sortedVideos_def completedWithUrl_eq)
  have h4: "sorted (map (title_scene_number parseInt) (sortedVideos parseInt hs))"
    by (simp add: sortedVideos_def)
  have h5: "\<forall>k. filter (\<lambda>v. title_scene_number parseInt v = k) (sortedVideos parseInt hs) =
          filter (\<lambda>v. title_scene_number parseInt v = k)
            (filter (\<lambda>v. vh_status v = ''completed'' \<and> vh_videoUrl v \<noteq> None \<and> vh_videoUrl v \<noteq> Some [])
               hs)"
    by (simp only: sortedVideos_def sort_key_stable completedWithUrl_eq) simp
  have h6: "history_merge_items parseInt hs' = history_merge_items parseInt hs"
    if b: "mset hs' = mset hs
        \<and> distinct (map (title_scene_number parseInt)
             (filter (\<lambda>v. vh_status v = ''completed'' \<and> vh_videoUrl v \<noteq> None \<and> vh_videoUrl v \<noteq> Some [])
                hs))"
  proof -
    from b have b1: "mset hs' = mset hs"
      and b2: "distinct (map (title_scene_number parseInt) (completedWithUrl hs))"
      by (simp_all add: completedWithUrl_eq)
    show ?thesis using b1 b2 by (rule history_merge_items_perm)
  qed
  from v1 v2 v3 v4 h1 h2 h3 h4 h5 h6 show ?thesis by blast
qed


lemma videosToMerge_example:
  "videosToMerge
     [\<lparr>gv_sceneNumber = 2, gv_sceneTitle = ''B'', gv_videoUrl = Some ''b'', gv_status = ''completed'', gv_error = None\<rparr>,
      \<lparr>gv_sceneNumber = 4, gv_sceneTitle = ''D'', gv_videoUrl = None, gv_status = ''failed'', gv_error = None\<rparr>,
      \<lparr>gv_sceneNumber = 1, gv_sceneTitle = ''A'', gv_videoUrl = Some ''a'', gv_status = ''completed'', gv_error = None\<rparr>,
      \<lparr>gv_sceneNumber = 3, gv_sceneTitle = ''C'', gv_videoUrl = Some ''c'', gv_status = ''completed'', gv_error = None\<rparr>]
   = [\<lparr>mi_sceneNumber = 1, mi_videoUrl = Some ''a''\<rparr>,
      \<lparr>mi_sceneNumber = 2, mi_videoUrl = Some ''b''\<rparr>,
      \<lparr>mi_sceneNumber = 3, mi_videoUrl = Some ''c''\<rparr>]"
  by (simp add: videosToMerge_def completedVideos_def)

lemma title_scene_number_example:
  "title_scene_number parseInt_digits \<lparr>vh_id = ''x'', vh_status = ''completed'', vh_title = Some ''Scene 1: dawn'', vh_videoUrl = Some ''a''\<rparr> = 1"
  "title_scene_number parseInt_digits \<lparr>vh_id = ''y'', vh_status = ''completed'', vh_title = Some ''Scene 2'', vh_videoUrl = Some ''b''\<rparr> = 2"
  by (simp_all add: title_scene_number_def startsWith_def is_digit_def parseInt_digits_def
      digit_value_def)

lemma history_merge_items_example:
  "history_merge_items parseInt_digits
     [\<lparr>vh_id = ''y'', vh_status = ''completed'', vh_title = Some ''Scene 2'', vh_videoUrl = Some ''b''\<rparr>,
      \<lparr>vh_id = ''x'', vh_status = ''completed'', vh_title = Some ''Scene 1: dawn'', vh_videoUrl = Some ''a''\<rparr>]
   = [\<lparr>mi_sceneNumber = 1, mi_videoUrl = Some ''a''\<rparr>,
      \<lparr>mi_sceneNumber = 2, mi_videoUrl = Some ''b''\<rparr>]"
  by (simp add: history_merge_items_def sortedVideos_def completedWithUrl_def truthy_string_def
      title_scene_number_example)

theorem merge_order_invariant_distinct_keys_witness:
  "mset [\<lparr>gv_sceneNumber = 2, gv_sceneTitle = ''B'', gv_videoUrl = Some ''b'', gv_status = ''completed'', gv_error = None\<rparr>,
      \<lparr>gv_sceneNumber = 4, gv_sceneTitle = ''D'', gv_videoUrl = None, gv_status = ''failed'', gv_error = None\<rparr>,
      \<lparr>gv_sceneNumber = 1, gv_sceneTitle = ''A'', gv_videoUrl = Some ''a'', gv_status = ''completed'', gv_error = None\<rparr>,
      \<lparr>gv_sceneNumber = 3, gv_sceneTitle = ''C'', gv_videoUrl = Some ''c'', gv_status = ''completed'', gv_error = None\<rparr>]
   = mset [\<lparr>gv_sceneNumber = 1, gv_sceneTitle = ''A'', gv_videoUrl = Some ''a'', gv_status = ''completed'', gv_error = None\<rparr>,
      \<lparr>gv_sceneNumber = 2, gv_sceneTitle = ''B'', gv_videoUrl = Some ''b'', gv_status = ''completed'', gv_error = None\<rparr>,
      \<lparr>gv_sceneNumber = 3, gv_sceneTitle = ''C'', gv_videoUrl = Some ''c'', gv_status = ''completed'', gv_error = None\<rparr>,
      \<lparr>gv_sceneNumber = 4, gv_sceneTitle = ''D'', gv_videoUrl = None, gv_status = ''failed'', gv_error = None\<rparr>]
   \<and> videosToMerge
     [\<lparr>gv_sceneNumber = 2, gv_sceneTitle = ''B'', gv_videoUrl = Some ''b'', gv_status = ''completed'', gv_error = None\<rparr>,
      \<lparr>gv_sceneNumber = 4, gv_sceneTitle = ''D'', gv_videoUrl = None, gv_status = ''failed'', gv_error = None\<rparr>,
      \<lparr>gv_sceneNumber = 1, gv_sceneTitle = ''A'', gv_videoUrl = Some ''a'', gv_status = ''completed'', gv_error = None\<rparr>,
      \<lparr>gv_sceneNumber = 3, gv_sceneTitle = ''C'', gv_videoUrl = Some ''c'', gv_status = ''completed'', gv_error = None\<rparr>]
     = videosToMerge
     [\<lparr>gv_sceneNumber = 1, gv_sceneTitle = ''A'', gv_videoUrl = Some ''a'', gv_status = ''completed'', gv_error = None\<rparr>,
      \<lparr>gv_sceneNumber = 2, gv_sceneTitle = ''B'', gv_videoUrl = Some ''b'', gv_status = ''completed'', gv_error = None\<rparr>,
      \<lparr>gv_sceneNumber = 3, gv_sceneTitle = ''C'', gv_videoUrl = Some ''c'', gv_status = ''completed'', gv_error = None\<rparr>,
      \<lparr>gv_sceneNumber = 4, gv_sceneTitle = ''D'', gv_videoUrl = None, gv_status = ''failed'', gv_error = None\<rparr>]
   \<and> videosToMerge
     [\<lparr>gv_sceneNumber = 2, gv_sceneTitle = ''B'', gv_videoUrl = Some ''b'', gv_status = ''completed'', gv_error = None\<rparr>,
      \<lparr>gv_sceneNumber = 4, gv_sceneTitle = ''D'', gv_videoUrl = None, gv_status = ''failed'', gv_error = None\<rparr>,
      \<lparr>gv_sceneNumber = 1, gv_sceneTitle = ''A'', gv_videoUrl = Some ''a'', gv_status = ''completed'', gv_error = None\<rparr>,
      \<lparr>gv_sceneNumber = 3, gv_sceneTitle = ''C'', gv_videoUrl = Some ''c'', gv_status = ''completed'', gv_error = None\<rparr>]
     = [\<lparr>mi_sceneNumber = 1, mi_videoUrl = Some ''a''\<rparr>,
      \<lparr>mi_sceneNumber = 2, mi_videoUrl = Some ''b''\<rparr>,
      \<lparr>mi_sceneNumber = 3, mi_videoUrl = Some ''c''\<rparr>]
   \<and> mset [\<lparr>vh_id = ''y'', vh_status = ''completed'', vh_title = Some ''Scene 2'', vh_videoUrl = Some ''b''\<rparr>,
      \<lparr>vh_id = ''x'', vh_status = ''completed'', vh_title = Some ''Scene 1: dawn'', vh_videoUrl = Some ''a''\<rparr>]
     = mset [\<lparr>vh_id = ''x'', vh_status = ''completed'', vh_title = Some ''Scene 1: dawn'', vh_videoUrl = Some ''a''\<rparr>,
      \<lparr>vh_id = ''y'', vh_status = ''completed'', vh_title = Some ''Scene 2'', vh_videoUrl = Some ''b''\<rparr>]
   \<and> history_merge_items parseInt_digits
     [\<lparr>vh_id = ''y'', vh_status = ''completed'', vh_title = Some ''Scene 2'', vh_videoUrl = Some ''b''\<rparr>,
      \<lparr>vh_id = ''x'', vh_status = ''completed'', vh_title = Some ''Scene 1: dawn'', vh_videoUrl = Some ''a''\<rparr>]
     = history_merge_items parseInt_digits
     [\<lparr>vh_id = ''x'', vh_status = ''completed'', vh_title = Some ''Scene 1: dawn'', vh_videoUrl = Some ''a''\<rparr>,
      \<lparr>vh_id = ''y'', vh_status = ''completed'', vh_title = Some ''Scene 2'', vh_videoUrl = Some ''b''\<rparr>]
   \<and> history_merge_items parseInt_digits
     [\<lparr>vh_id = ''y'', vh_status = ''completed'', vh_title = Some ''Scene 2'', vh_videoUrl = Some ''b''\<rparr>,
      \<lparr>vh_id = ''x'', vh_status = ''completed'', vh_title = Some ''Scene 1: dawn'', vh_videoUrl = Some ''a''\<rparr>]
     = [\<lparr>mi_sceneNumber = 1, mi_videoUrl = Some ''a''\<rparr>,
      \<lparr>mi_sceneNumber = 2, mi_videoUrl = Some ''b''\<rparr>]"
proof -
  let ?A1 = "[\<lparr>gv_sceneNumber = 2, gv_sceneTitle = ''B'', gv_videoUrl = Some ''b'', gv_status = ''completed'', gv_error = None\<rparr>,
      \<lparr>gv_sceneNumber = 4, gv_sceneTitle = ''D'', gv_videoUrl = None, gv_status = ''failed'', gv_error = None\<rparr>,
      \<lparr>gv_sceneNumber = 1, gv_sceneTitle = ''A'', gv_videoUrl = Some ''a'', gv_status = ''completed'', gv_error = None\<rparr>,
      \<lparr>gv_sceneNumber = 3, gv_sceneTitle = ''C'', gv_videoUrl = Some ''c'', gv_status = ''completed'', gv_error = None\<rparr>]"
  let ?A2 = "[\<lparr>gv_sceneNumber = 1, gv_sceneTitle = ''A'', gv_videoUrl = Some ''a'', gv_status = ''completed'', gv_error = None\<rparr>,
      \<lparr>gv_sceneNumber = 2, gv_sceneTitle = ''B'', gv_videoUrl = Some ''b'', gv_status = ''completed'', gv_error = None\<rparr>,
      \<lparr>gv_sceneNumber = 3, gv_sceneTitle = ''C'', gv_videoUrl = Some ''c'', gv_status = ''completed'', gv_error = None\<rparr>,
      \<lparr>gv_sceneNumber = 4, gv_sceneTitle = ''D'', gv_videoUrl = None, gv_status = ''failed'', gv_error = None\<rparr>]"
  let ?H1 = "[\<lparr>vh_id = ''y'', vh_status = ''completed'', vh_title = Some ''Scene 2'', vh_videoUrl = Some ''b''\<rparr>,
      \<lparr>vh_id = ''x'', vh_status = ''completed'', vh_title = Some ''Scene 1: dawn'', vh_videoUrl = Some ''a''\<rparr>]"
  let ?H2 = "[\<lparr>vh_id = ''x'', vh_status = ''completed'', vh_title = Some ''Scene 1: dawn'', vh_videoUrl = Some ''a''\<rparr>,
      \<lparr>vh_id = ''y'', vh_status = ''completed'', vh_title = Some ''Scene 2'', vh_videoUrl = Some ''b''\<rparr>]"
  have m1: "mset ?A1 = mset ?A2" by simp
  have d1: "distinct (map gv_sceneNumber (filter (\<lambda>v. gv_status v = ''completed'') ?A2))"
    by simp
  have m2: "mset ?H1 = mset ?H2" by simp
  have d2: "distinct (map (title_scene_number parseInt_digits)
       (filter (\<lambda>v. vh_status v = ''completed'' \<and> vh_videoUrl v \<noteq> None \<and> vh_videoUrl v \<noteq> Some [])
          ?H2))"
    by (simp add: title_scene_number_example)
  have e1: "videosToMerge ?A1 = videosToMerge ?A2"
    using merge_order_invariant_distinct_keys [of ?A2 ?A1 _ _ parseInt_digits ?H2 ?H1] m1 d1
    by blast
  have e2: "history_merge_items parseInt_digits ?H1 = history_merge_items parseInt_digits ?H2"
    using merge_order_invariant_distinct_keys [of ?A2 ?A1 _ _ parseInt_digits ?H2 ?H1] m2 d2
    by blast
  from m1 e1 m2 e2 videosToMerge_example history_merge_items_example
  show ?thesis by simp
qed

theorem merge_order_counterexample:
  "mset [\<lparr>vh_id = ''x'', vh_status = ''completed'', vh_title = Some ''Intro'', vh_videoUrl = Some ''a''\<rparr>,
         \<lparr>vh_id = ''y'', vh_status = ''completed'', vh_title = Some ''Outro'', vh_videoUrl = Some ''b''\<rparr>]
   = mset [\<lparr>vh_id = ''y'', vh_status = ''completed'', vh_title = Some ''Outro'', vh_videoUrl = Some ''b''\<rparr>,
         \<lparr>vh_id = ''x'', vh_status = ''completed'', vh_title = Some ''Intro'', vh_videoUrl = Some ''a''\<rparr>]
   \<and> history_merge_items parseInt_digits
        [\<lparr>vh_id = ''x'', vh_status = ''completed'', vh_title = Some ''Intro'', vh_videoUrl = Some ''a''\<rparr>,
         \<lparr>vh_id = ''y'', vh_status = ''completed'', vh_title = Some ''Outro'', vh_videoUrl = Some ''b''\<rparr>]
     = [\<lparr>mi_sceneNumber = 1, mi_videoUrl = Some ''a''\<rparr>,
      \<lparr>mi_sceneNumber = 2, mi_videoUrl = Some ''b''\<rparr>]
   \<and> history_merge_items parseInt_digits
        [\<lparr>vh_id = ''y'', vh_status = ''completed'', vh_title = Some ''Outro'', vh_videoUrl = Some ''b''\<rparr>,
         \<lparr>vh_id = ''x'', vh_status = ''completed'', vh_title = Some ''Intro'', vh_videoUrl = Some ''a''\<rparr>]
     = [\<lparr>mi_sceneNumber = 1, mi_videoUrl = Some ''b''\<rparr>, \<lparr>mi_sceneNumber = 2, mi_videoUrl = Some ''a''\<rparr>]"
  by (simp add: history_merge_items_def sortedVideos_def completedWithUrl_def truthy_string_def
      title_scene_number_def startsWith_def)

section \<open>Properties of the merge precondition\<close>

lemma handleMergeVideos_rejects:
  "length (completedVideos videos) < 2 \<Longrightarrow>
   \<exists>t. handleMergeVideos st videos pid = (Some t, st, None)"
  by (simp add: handleMergeVideos_def)

lemma handleMergeVideos_history_rejects:
  "length (completedWithUrl videos) < 2 \<Longrightarrow>
   \<exists>t. handleMergeVideos_history parseInt st key videos pid =
         (Some t, st\<lparr>mergingProject := None\<rparr>, None)"
  by (simp add: handleMergeVideos_history_def)

lemma handleMergeSelected_rejects:
  "set_size (selectedVideos st) < 2 \<Longrightarrow> \<exists>t. handleMergeSelected st = (Some t, st, None)"
  by (simp add: handleMergeSelected_def)

text \<open>
  C7. The videos view counts the videos whose status is \<open>completed\<close> and does not look at
  their URL. With two completed videos of which one has no URL there is one usable input, yet
  the merge is not rejected: the request is built and carries an item without a URL. The
  history page, on the same rows, filters on the URL as well and rejects.
\<close>

theorem handleMergeVideos_url_unchecked:
  "length (filter (\<lambda>v. gv_status v = ''completed'' \<and> truthy_string (gv_videoUrl v))
     [\<lparr>gv_sceneNumber = 1, gv_sceneTitle = ''A'', gv_videoUrl = Some ''a.mp4'', gv_status = ''completed'', gv_error = None\<rparr>,
      \<lparr>gv_sceneNumber = 2, gv_sceneTitle = ''B'', gv_videoUrl = None, gv_status = ''completed'', gv_error = None\<rparr>]) = 1
   \<and> handleMergeVideos
       \<lparr>retryingScenes = [], retryingAll = False, merging = False, mergingStatus = [], mergedVideoUrl = None\<rparr>
       [\<lparr>gv_sceneNumber = 1, gv_sceneTitle = ''A'', gv_videoUrl = Some ''a.mp4'', gv_status = ''completed'', gv_error = None\<rparr>,
        \<lparr>gv_sceneNumber = 2, gv_sceneTitle = ''B'', gv_videoUrl = None, gv_status = ''completed'', gv_error = None\<rparr>]
       None
     = (None,
        \<lparr>retryingScenes = [], retryingAll = False, merging = True,
           mergingStatus = ''Executed - Processing videos...'', mergedVideoUrl = None\<rparr>,
        Some \<lparr>mp_videos = [\<lparr>mi_sceneNumber = 1, mi_videoUrl = Some ''a.mp4''\<rparr>,
                            \<lparr>mi_sceneNumber = 2, mi_videoUrl = None\<rparr>],
              mp_projectId = None\<rparr>)
   \<and> fst (handleMergeVideos_history parseInt_digits
       \<lparr>mergingProject = None, selectedVideos = [], isMergingSelected = False\<rparr> ''p''
       [\<lparr>vh_id = ''x'', vh_status = ''completed'', vh_title = Some ''Scene 1'', vh_videoUrl = Some ''a.mp4''\<rparr>,
        \<lparr>vh_id = ''y'', vh_status = ''completed'', vh_title = Some ''Scene 2'', vh_videoUrl = None\<rparr>]
       None)
     = Some (Toast ''Cannot Merge'' ''You need at least 2 completed videos to merge.'')"
  by (simp add: handleMergeVideos_def completedVideos_def videosToMerge_def truthy_string_def
      payload_projectId_def handleMergeVideos_history_def completedWithUrl_def)

section \<open>Properties of the polling loops\<close>


















section \<open>Properties of the status normalisation\<close>











section \<open>Properties of a cancelled attempt\<close>

lemma poll_loop_aborted:
  "poll_loop n opn sid env True i = ([], if i < maxAttempts then Break else LoopEnd True)"
  by (subst poll_loop.simps) simp

lemma after_loop_aborted:
  "after_loop n (snd (poll_loop n opn sid env True i)) = []"
  by (simp add: poll_loop_aborted after_loop_def)

lemma poll_loop_abort_in_sleep:
  "i < maxAttempts \<Longrightarrow> abort_in_sleep (env i) \<Longrightarrow> poll_loop n opn sid env False i = ([], Break)"
  by (subst poll_loop.simps) simp

lemma poll_loop_abort_in_fetch:
  assumes "i < maxAttempts" and "\<not> abort_in_sleep (env i)" and "abort_in_fetch (env i)"
  shows "fst (poll_loop n opn sid env False i) = [Sent (CheckVideoStatus opn sid)]
       \<and> after_loop n (snd (poll_loop n opn sid env False i)) = []"
proof (cases "status_reply (env i)")
  case (Rejected msg)
  then show ?thesis
    using assms by (subst (1 2) poll_loop.simps) (simp add: after_loop_def catch_block_def)
next
  case (Resolved sd)
  then show ?thesis
    using assms
    by (subst (1 2) poll_loop.simps)
       (simp add: after_loop_def catch_block_def poll_loop_aborted split_beta)
qed

lemma retry_attempt_abort_in_generate:
  assumes "abort_in_generate env"
  shows "retry_attempt sc env =
     [Update (MarkGenerating (sc_scene sc)), Sent (GenerateVideo sc), ControllerDeleted (sc_scene sc)]"
proof (cases "generate_reply env")
  case (Rejected msg)
  then show ?thesis using assms by (simp add: retry_attempt_def catch_block_def)
next
  case (Resolved result)
  then show ?thesis
    using assms
    by (simp add: retry_attempt_def catch_block_def poll_loop_aborted after_loop_def maxAttempts_def)
qed

text \<open>
  C9. A cancelled attempt changes no video and sends no request. \<open>abort()\<close> can reach an
  attempt at its three suspension points. When the signal is aborted at the head of a pass,
  or the abort arrives during the sleep of the pass, the loop is left with nothing sent and
  nothing updated. When it arrives while the status request of the pass is awaited, that
  request is the last action of the loop whatever it settles to (a success, a failure, another
  status or a rejection), and the code after the loop does nothing. When it arrives while the
  generation request is awaited, the attempt does nothing after that request but delete its
  entry of the controller map.
\<close>

theorem cancelled_attempt_commits_nothing:
  "fst (poll_loop n opn sid env True i) = []
   \<and> after_loop n (snd (poll_loop n opn sid env True i)) = []
   \<and> (i < 300 \<and> abort_in_sleep (env i) \<longrightarrow>
        fst (poll_loop n opn sid env False i) = []
        \<and> after_loop n (snd (poll_loop n opn sid env False i)) = [])
   \<and> (i < 300 \<and> \<not> abort_in_sleep (env i) \<and> abort_in_fetch (env i) \<longrightarrow>
        fst (poll_loop n opn sid env False i) = [Sent (CheckVideoStatus opn sid)]
        \<and> after_loop n (snd (poll_loop n opn sid env False i)) = [])
   \<and> (abort_in_generate aenv \<longrightarrow>
        retry_attempt sc aenv =
          [Update (MarkGenerating (sc_scene sc)), Sent (GenerateVideo sc),
           ControllerDeleted (sc_scene sc)])"
proof -
  have m: "maxAttempts = 300" by (simp add: maxAttempts_def)
  have c1: "fst (poll_loop n opn sid env True i) = []"
    by (simp add: poll_loop_aborted)
  have c2: "after_loop n (snd (poll_loop n opn sid env True i)) = []"
    by (rule after_loop_aborted)
  have c3: "i < 300 \<and> abort_in_sleep (env i) \<Longrightarrow>
        fst (poll_loop n opn sid env False i) = []
        \<and> after_loop n (snd (poll_loop n opn sid env False i)) = []"
    using poll_loop_abort_in_sleep [of i env n opn sid] by (simp add: m after_loop_def)
  have c4: "i < 300 \<and> \<not> abort_in_sleep (env i) \<and> abort_in_fetch (env i) \<Longrightarrow>
        fst (poll_loop n opn sid env False i) = [Sent (CheckVideoStatus opn sid)]
        \<and> after_loop n (snd (poll_loop n opn sid env False i)) = []"
    using poll_loop_abort_in_fetch [of i env n opn sid] by (simp add: m)
  have c5: "abort_in_generate aenv \<Longrightarrow>
        retry_attempt sc aenv =
          [Update (MarkGenerating (sc_scene sc)), Sent (GenerateVideo sc),
           ControllerDeleted (sc_scene sc)]"
    by (rule retry_attempt_abort_in_generate)
  from c1 c2 c3 c4 c5 show ?thesis by blast
qed

theorem cancelled_attempt_commits_nothing_witness:
  "fst (poll_loop 2 ''op'' ''s''
      (\<lambda>k. \<lparr>abort_in_sleep = False,
              status_reply = Resolved \<lparr>sd_status = ''COMPLETED'', sd_videoUrl = Some ''u'', sd_error = None\<rparr>,
              abort_in_fetch = True, clock = ''17''\<rparr>) False 0)
     = [Sent (CheckVideoStatus ''op'' ''s'')]
   \<and> after_loop 2 (snd (poll_loop 2 ''op'' ''s''
      (\<lambda>k. \<lparr>abort_in_sleep = False,
              status_reply = Resolved \<lparr>sd_status = ''COMPLETED'', sd_videoUrl = Some ''u'', sd_error = None\<rparr>,
              abort_in_fetch = True, clock = ''17''\<rparr>) False 0)) = []"
proof -
  let ?env = "\<lambda>k::nat. \<lparr>abort_in_sleep = False,
              status_reply = Resolved \<lparr>sd_status = ''COMPLETED'', sd_videoUrl = Some ''u'', sd_error = None\<rparr>,
              abort_in_fetch = True, clock = ''17''\<rparr>"
  have h: "(0::nat) < 300 \<and> \<not> abort_in_sleep (?env 0) \<and> abort_in_fetch (?env 0)"
    by simp
  from cancelled_attempt_commits_nothing [of 2 "''op''" "''s''" ?env 0] h
  show ?thesis by blast
qed

section \<open>Properties of retrying all failed scenes\<close>

lemma shouldRetry_apply_update:
  "update_scene u \<noteq> m \<Longrightarrow> shouldRetry m (apply_update u vs) = shouldRetry m vs"
  by (cases u) (auto simp: shouldRetry_def update_scene_def list_ex_iff)

lemma updates_only_simps:
  "updates_only n []"
  "updates_only n (Update u # acts) = (update_scene u = n \<and> updates_only n acts)"
  "updates_only n (Toasted t # acts) = updates_only n acts"
  "updates_only n (Sent r # acts) = updates_only n acts"
  "updates_only n (ControllerInstalled k # acts) = updates_only n acts"
  "updates_only n (ControllerDeleted k # acts) = updates_only n acts"
  "updates_only n (xs @ ys) = (updates_only n xs \<and> updates_only n ys)"
  by (auto simp: updates_only_def)

lemma shouldRetry_run_updates:
  "updates_only n acts \<Longrightarrow> n \<noteq> m \<Longrightarrow> shouldRetry m (run_updates acts vs) = shouldRetry m vs"
proof (induction acts vs rule: run_updates.induct)
  case (2 u as vs)
  then show ?case
    by (simp add: updates_only_simps shouldRetry_apply_update)
qed (simp_all add: updates_only_simps)

lemma updates_only_poll_loop: "updates_only n (fst (poll_loop n opn sid env aborted i))"
proof (induction n opn sid env aborted i rule: poll_loop.induct)
  case (1 n opn sid env aborted i)
  show ?case
  proof (cases "i < maxAttempts \<and> \<not> aborted \<and> \<not> abort_in_sleep (env i)")
    case False
    then show ?thesis
      by (subst poll_loop.simps) (auto simp: updates_only_simps)
  next
    case True
    show ?thesis
    proof (cases "status_reply (env i)")
      case (Rejected msg)
      then show ?thesis
        using True by (subst poll_loop.simps) (auto simp: updates_only_simps)
    next
      case (Resolved sd)
      show ?thesis
      proof (cases "status_is_success (sd_status sd) \<or> status_is_failure (sd_status sd)")
        case t: True
        then show ?thesis
          using True Resolved
          by (subst poll_loop.simps) (auto simp: updates_only_simps update_scene_def)
      next
        case f: False
        have ih: "updates_only n (fst (poll_loop n opn sid env (abort_in_fetch (env i)) (Suc i)))"
          using "1.IH" [OF _ _ _ Resolved] True f by simp
        show ?thesis
          using True Resolved f ih
          by (subst poll_loop.simps) (auto simp: updates_only_simps split: prod.splits)
      qed
    qed
  qed
qed

lemma updates_only_catch_block: "updates_only n (catch_block n msg ab)"
  by (simp add: catch_block_def updates_only_simps update_scene_def)

lemma updates_only_after_loop: "updates_only n (after_loop n ex)"
  by (cases ex) (simp_all add: after_loop_def updates_only_simps updates_only_catch_block)

lemma updates_only_retry_attempt: "updates_only (sc_scene sc) (retry_attempt sc env)"
proof (cases "generate_reply env")
  case (Rejected msg)
  then show ?thesis
    by (simp add: retry_attempt_def updates_only_simps updates_only_catch_block update_scene_def)
next
  case (Resolved result)
  show ?thesis
  proof (cases "gr_ok result")
    case False
    then show ?thesis
      using Resolved
      by (simp add: retry_attempt_def updates_only_simps updates_only_catch_block update_scene_def)
  next
    case True
    obtain acts ex where p: "poll_loop (sc_scene sc) (gr_operationName result) (gr_sceneId result)
        (ticks env) (abort_in_generate env) 0 = (acts, ex)"
      by (cases "poll_loop (sc_scene sc) (gr_operationName result) (gr_sceneId result)
        (ticks env) (abort_in_generate env) 0") auto
    have "updates_only (sc_scene sc) acts"
      using updates_only_poll_loop [of "sc_scene sc" "gr_operationName result" "gr_sceneId result"
          "ticks env" "abort_in_generate env" 0] p by simp
    then show ?thesis
      using Resolved True p
      by (simp add: retry_attempt_def updates_only_simps updates_only_after_loop update_scene_def)
  qed
qed

lemma updates_only_handleRetryVideo: "updates_only n (handleRetryVideo scenes env n)"
proof (cases "find (\<lambda>s. sc_scene s = n) scenes")
  case None
  then show ?thesis by (simp add: handleRetryVideo_def updates_only_simps)
next
  case (Some sc)
  then have "sc_scene sc = n" by (auto simp: find_Some_iff)
  then show ?thesis
    using Some updates_only_retry_attempt [of sc env]
    by (simp add: handleRetryVideo_def updates_only_simps)
qed

lemma shouldRetry_undisturbed:
  "n \<noteq> m \<Longrightarrow> shouldRetry m (snd (undisturbed_retry scenes envs n vs)) = shouldRetry m vs"
  by (simp add: undisturbed_retry_def Let_def shouldRetry_run_updates [OF updates_only_handleRetryVideo])

lemma retry_each_undisturbed:
  "distinct ns \<Longrightarrow> (\<And>n. n \<in> set ns \<Longrightarrow> shouldRetry n vs) \<Longrightarrow> (\<And>j. k \<le> j \<Longrightarrow> runs_now j) \<Longrightarrow>
   fst (retry_each runs_now (undisturbed_retry scenes envs) k ns vs)
     = map (\<lambda>n. (n, handleRetryVideo scenes (envs n) n)) ns"
proof (induction ns arbitrary: vs k)
  case Nil
  show ?case by simp
next
  case (Cons n ns)
  obtain acts vs1 where r: "undisturbed_retry scenes envs n vs = (acts, vs1)"
    by (cases "undisturbed_retry scenes envs n vs") auto
  have acts: "acts = handleRetryVideo scenes (envs n) n"
    using r by (simp add: undisturbed_retry_def Let_def)
  have "\<And>m. m \<in> set ns \<Longrightarrow> shouldRetry m vs1"
  proof -
    fix m assume m: "m \<in> set ns"
    then have "n \<noteq> m" using Cons.prems(1) by auto
    then have "shouldRetry m (snd (undisturbed_retry scenes envs n vs)) = shouldRetry m vs"
      by (rule shouldRetry_undisturbed)
    then show "shouldRetry m vs1" using r m Cons.prems(2) by simp
  qed
  moreover have "\<And>j. Suc k \<le> j \<Longrightarrow> runs_now j" using Cons.prems(3) by simp
  ultimately have "fst (retry_each runs_now (undisturbed_retry scenes envs) (Suc k) ns vs1)
      = map (\<lambda>n. (n, handleRetryVideo scenes (envs n) n)) ns"
    using Cons.IH Cons.prems(1) by simp
  then show ?case
    using Cons.prems(2) [of n] Cons.prems(3) [of k] r acts
    by (simp add: split_beta read_in_updater_def)
qed

lemma shouldRetry_failedSceneNumbers: "n \<in> set (failedSceneNumbers vs) \<Longrightarrow> shouldRetry n vs"
  by (auto simp: failedSceneNumbers_def shouldRetry_def list_ex_iff)

lemma retry_each_calls_subseq: "subseq (map fst (fst (retry_each runs_now retry k ns vs))) ns"
  by (induction ns arbitrary: vs k) (auto simp: split_beta)

lemma retry_each_queued:
  "(\<And>j. k \<le> j \<Longrightarrow> \<not> runs_now j) \<Longrightarrow> retry_each runs_now retry k ns vs = ([], vs)"
proof (induction ns arbitrary: k)
  case Nil
  show ?case by simp
next
  case (Cons n ns)
  have "retry_each runs_now retry (Suc k) ns vs = ([], vs)"
    using Cons.IH [of "Suc k"] Cons.prems by simp
  then show ?case using Cons.prems [of k] by (simp add: read_in_updater_def)
qed


lemma no_generate_poll_loop: "filter is_generate_request (fst (poll_loop n opn sid env aborted i)) = []"
proof (induction n opn sid env aborted i rule: poll_loop.induct)
  case (1 n opn sid env aborted i)
  show ?case
  proof (cases "i < maxAttempts \<and> \<not> aborted \<and> \<not> abort_in_sleep (env i)")
    case False
    then show ?thesis
      by (subst poll_loop.simps) auto
  next
    case True
    show ?thesis
    proof (cases "status_reply (env i)")
      case (Rejected msg)
      then show ?thesis
        using True by (subst poll_loop.simps) (auto simp: is_generate_request_def)
    next
      case (Resolved sd)
      show ?thesis
      proof (cases "status_is_success (sd_status sd) \<or> status_is_failure (sd_status sd)")
        case t: True
        then show ?thesis
          using True Resolved
          by (subst poll_loop.simps) (auto simp: is_generate_request_def)
      next
        case f: False
        have ih: "filter is_generate_request
            (fst (poll_loop n opn sid env (abort_in_fetch (env i)) (Suc i))) = []"
          using "1.IH" [OF _ _ _ Resolved] True f by simp
        show ?thesis
          using True Resolved f ih
          by (subst poll_loop.simps) (auto simp: is_generate_request_def split: prod.splits)
      qed
    qed
  qed
qed

lemma no_generate_catch_block: "filter is_generate_request (catch_block n msg ab) = []"
  by (simp add: catch_block_def is_generate_request_def)

lemma no_generate_after_loop: "filter is_generate_request (after_loop n ex) = []"
  by (cases ex) (simp_all add: after_loop_def no_generate_catch_block)

lemma one_generate_retry_attempt: "length (filter is_generate_request (retry_attempt sc env)) = 1"
proof (cases "generate_reply env")
  case (Rejected msg)
  then show ?thesis
    by (simp add: retry_attempt_def no_generate_catch_block is_generate_request_def)
next
  case (Resolved result)
  show ?thesis
  proof (cases "gr_ok result")
    case False
    then show ?thesis
      using Resolved by (simp add: retry_attempt_def no_generate_catch_block is_generate_request_def)
  next
    case True
    obtain acts ex where p: "poll_loop (sc_scene sc) (gr_operationName result) (gr_sceneId result)
        (ticks env) (abort_in_generate env) 0 = (acts, ex)"
      by (cases "poll_loop (sc_scene sc) (gr_operationName result) (gr_sceneId result)
        (ticks env) (abort_in_generate env) 0") auto
    have "filter is_generate_request acts = []"
      using no_generate_poll_loop [of "sc_scene sc" "gr_operationName result" "gr_sceneId result"
          "ticks env" "abort_in_generate env" 0] p by simp
    then show ?thesis
      using Resolved True p
      by (simp add: retry_attempt_def no_generate_after_loop is_generate_request_def)
  qed
qed

lemma one_generate_handleRetryVideo:
  assumes "\<exists>sc \<in> set scenes. sc_scene sc = n"
  shows "length (filter is_generate_request (handleRetryVideo scenes env n)) = 1"
proof -
  from assms have "find (\<lambda>s. sc_scene s = n) scenes \<noteq> None"
    by (auto simp: find_None_iff)
  then obtain sc where "find (\<lambda>s. sc_scene s = n) scenes = Some sc" by auto
  then show ?thesis
    using one_generate_retry_attempt [of sc env]
    by (simp add: handleRetryVideo_def is_generate_request_def)
qed

lemma generate_requests_count:
  assumes "\<And>n. n \<in> set ns \<Longrightarrow> \<exists>sc \<in> set scenes. sc_scene sc = n"
  shows "length (filter is_generate_request
           (concat (map snd (map (\<lambda>n. (n, handleRetryVideo scenes (envs n) n)) ns)))) = length ns"
  using assms
proof (induction ns)
  case Nil
  show ?case by simp
next
  case (Cons n ns)
  have "length (filter is_generate_request (handleRetryVideo scenes (envs n) n)) = 1"
    using Cons.prems [of n] by (simp add: one_generate_handleRetryVideo)
  moreover have "length (filter is_generate_request
           (concat (map snd (map (\<lambda>n. (n, handleRetryVideo scenes (envs n) n)) ns)))) = length ns"
    using Cons.IH Cons.prems by simp
  ultimately show ?case by simp
qed


text \<open>
  When React runs every updater during the call, \<open>handleRetryAllFailed\<close> goes through the
  scene numbers of the videos that are failed when it is called, in order, skips a scene
  with no failed video at its turn and otherwise awaits \<open>handleRetryVideo\<close>; with nothing
  else changing the videos and pairwise distinct failed scene numbers every scene of the
  snapshot is retried once, and each call sends one generation request.
\<close>

lemma handleRetryAllFailed_updaters_run_at_once:
  "(\<not> shouldRetry n vs \<longrightarrow>
        retry_each (\<lambda>j. True) retry k (n # rest) vs = retry_each (\<lambda>j. True) retry (Suc k) rest vs)
   \<and> (shouldRetry n vs \<longrightarrow>
        retry_each (\<lambda>j. True) retry k (n # rest) vs =
          ((n, fst (retry n vs)) # fst (retry_each (\<lambda>j. True) retry (Suc k) rest (snd (retry n vs))),
           snd (retry_each (\<lambda>j. True) retry (Suc k) rest (snd (retry n vs)))))
   \<and> (distinct (failedSceneNumbers prev) \<longrightarrow>
        map fst (fst (handleRetryAllFailed (\<lambda>j. True) (undisturbed_retry scenes envs) prev))
          = failedSceneNumbers prev)
   \<and> (distinct (failedSceneNumbers prev)
        \<and> (\<forall>k \<in> set (failedSceneNumbers prev). \<exists>sc \<in> set scenes. sc_scene sc = k) \<longrightarrow>
        length (filter is_generate_request
             (concat (map snd (fst (handleRetryAllFailed (\<lambda>j. True) (undisturbed_retry scenes envs) prev)))))
          = length (failedSceneNumbers prev))"
proof -
  have c4: "\<not> shouldRetry n vs \<Longrightarrow>
        retry_each (\<lambda>j. True) retry k (n # rest) vs = retry_each (\<lambda>j. True) retry (Suc k) rest vs"
    by (simp add: read_in_updater_def)
  have c5: "shouldRetry n vs \<Longrightarrow>
        retry_each (\<lambda>j. True) retry k (n # rest) vs =
          ((n, fst (retry n vs)) # fst (retry_each (\<lambda>j. True) retry (Suc k) rest (snd (retry n vs))),
           snd (retry_each (\<lambda>j. True) retry (Suc k) rest (snd (retry n vs))))"
    by (simp add: split_beta read_in_updater_def)
  have u: "fst (handleRetryAllFailed (\<lambda>j. True) (undisturbed_retry scenes envs) prev)
      = map (\<lambda>n. (n, handleRetryVideo scenes (envs n) n)) (failedSceneNumbers prev)"
    if "distinct (failedSceneNumbers prev)"
    unfolding handleRetryAllFailed_def read_in_updater_def if_True
    using that by (rule retry_each_undisturbed) (simp_all add: shouldRetry_failedSceneNumbers)
  have c6: "distinct (failedSceneNumbers prev) \<Longrightarrow>
        map fst (fst (handleRetryAllFailed (\<lambda>j. True) (undisturbed_retry scenes envs) prev))
          = failedSceneNumbers prev"
    by (simp add: u comp_def)
  have c7: "length (filter is_generate_request
             (concat (map snd (fst (handleRetryAllFailed (\<lambda>j. True) (undisturbed_retry scenes envs) prev)))))
          = length (failedSceneNumbers prev)"
    if a: "distinct (failedSceneNumbers prev)
        \<and> (\<forall>k \<in> set (failedSceneNumbers prev). \<exists>sc \<in> set scenes. sc_scene sc = k)"
  proof -
    have d: "distinct (failedSceneNumbers prev)" using a by simp
    have ex: "\<And>k. k \<in> set (failedSceneNumbers prev) \<Longrightarrow> \<exists>sc \<in> set scenes. sc_scene sc = k"
      using a by blast
    show ?thesis
      unfolding u [OF d] using ex by (rule generate_requests_count)
  qed
  from c4 c5 c6 c7 show ?thesis by blast
qed

text \<open>
  C4. \<open>handleRetryAllFailed\<close> does not retry the failed scenes when React queues its
  updaters. The list of failed scene numbers and, at each turn, the test whether the scene
  is still failed are assigned inside updaters of \<open>setGeneratedVideos\<close> and read right after
  the call. When the updater of the first call is queued, the list is still empty when the
  loop starts: no scene is retried and the videos are as before. When the first two updaters
  run during their calls and the later ones are queued, as after the updates that the first
  retry makes, only the first failed scene is retried. In every case the scenes retried are
  a subsequence of those failed at the call, one after the other. With failed scenes 2, 5, 7
  the runs retry none and only scene 2, where the specification has three retries.
\<close>

theorem handleRetryAllFailed_queued_updaters:
  "subseq (map fst (fst (handleRetryAllFailed runs_now retry prev))) (failedSceneNumbers prev)
   \<and> (\<not> runs_now 0 \<longrightarrow> handleRetryAllFailed runs_now retry prev = ([], prev))
   \<and> (runs_now 0 \<and> runs_now 1 \<and> (\<forall>j. 2 \<le> j \<longrightarrow> \<not> runs_now j)
        \<and> failedSceneNumbers prev = n # rest \<longrightarrow>
        handleRetryAllFailed runs_now retry prev
          = ([(n, fst (retry n prev))], snd (retry n prev)))"
proof -
  have c1: "subseq (map fst (fst (handleRetryAllFailed runs_now retry prev))) (failedSceneNumbers prev)"
  proof (cases "runs_now 0")
    case True
    then show ?thesis
      unfolding handleRetryAllFailed_def read_in_updater_def
      using retry_each_calls_subseq [of runs_now retry 1 "failedSceneNumbers prev" prev] by simp
  next
    case False
    then show ?thesis by (simp add: handleRetryAllFailed_def read_in_updater_def)
  qed
  have c2: "handleRetryAllFailed runs_now retry prev = ([], prev)" if "\<not> runs_now 0"
    using that by (simp add: handleRetryAllFailed_def read_in_updater_def)
  have c3: "handleRetryAllFailed runs_now retry prev
          = ([(n, fst (retry n prev))], snd (retry n prev))"
    if a: "runs_now 0 \<and> runs_now 1 \<and> (\<forall>j. 2 \<le> j \<longrightarrow> \<not> runs_now j)
        \<and> failedSceneNumbers prev = n # rest"
  proof -
    have s: "shouldRetry n prev"
      using a by (simp add: shouldRetry_failedSceneNumbers)
    have q: "retry_each runs_now retry (Suc 1) rest (snd (retry n prev)) = ([], snd (retry n prev))"
      by (rule retry_each_queued) (use a in simp)
    show ?thesis
      using a s q by (simp add: handleRetryAllFailed_def read_in_updater_def split_beta)
  qed
  from c1 c2 c3 show ?thesis by blast
qed

theorem handleRetryAllFailed_queued_updaters_witness:
  "failedSceneNumbers
       [\<lparr>gv_sceneNumber = 1, gv_sceneTitle = ''A'', gv_videoUrl = Some ''a'', gv_status = ''completed'', gv_error = None\<rparr>,
        \<lparr>gv_sceneNumber = 2, gv_sceneTitle = ''B'', gv_videoUrl = None, gv_status = ''failed'', gv_error = Some ''x''\<rparr>,
        \<lparr>gv_sceneNumber = 5, gv_sceneTitle = ''E'', gv_videoUrl = None, gv_status = ''failed'', gv_error = Some ''x''\<rparr>,
        \<lparr>gv_sceneNumber = 7, gv_sceneTitle = ''G'', gv_videoUrl = None, gv_status = ''failed'', gv_error = Some ''x''\<rparr>] = [2, 5, 7]
   \<and> handleRetryAllFailed (\<lambda>k. False)
       (undisturbed_retry
          [\<lparr>sc_scene = 2, sc_title = ''B'', sc_description = ''b''\<rparr>,
           \<lparr>sc_scene = 5, sc_title = ''E'', sc_description = ''e''\<rparr>,
           \<lparr>sc_scene = 7, sc_title = ''G'', sc_description = ''g''\<rparr>]
          (\<lambda>k. \<lparr>generate_reply = Rejected ''offline'', abort_in_generate = False,
                  ticks = (\<lambda>j. \<lparr>abort_in_sleep = False, status_reply = Rejected ''offline'',
                                 abort_in_fetch = False, clock = ''0''\<rparr>)\<rparr>))
       [\<lparr>gv_sceneNumber = 1, gv_sceneTitle = ''A'', gv_videoUrl = Some ''a'', gv_status = ''completed'', gv_error = None\<rparr>,
        \<lparr>gv_sceneNumber = 2, gv_sceneTitle = ''B'', gv_videoUrl = None, gv_status = ''failed'', gv_error = Some ''x''\<rparr>,
        \<lparr>gv_sceneNumber = 5, gv_sceneTitle = ''E'', gv_videoUrl = None, gv_status = ''failed'', gv_error = Some ''x''\<rparr>,
        \<lparr>gv_sceneNumber = 7, gv_sceneTitle = ''G'', gv_videoUrl = None, gv_status = ''failed'', gv_error = Some ''x''\<rparr>]
     = ([], [\<lparr>gv_sceneNumber = 1, gv_sceneTitle = ''A'', gv_videoUrl = Some ''a'', gv_status = ''completed'', gv_error = None\<rparr>,
        \<lparr>gv_sceneNumber = 2, gv_sceneTitle = ''B'', gv_videoUrl = None, gv_status = ''failed'', gv_error = Some ''x''\<rparr>,
        \<lparr>gv_sceneNumber = 5, gv_sceneTitle = ''E'', gv_videoUrl = None, gv_status = ''failed'', gv_error = Some ''x''\<rparr>,
        \<lparr>gv_sceneNumber = 7, gv_sceneTitle = ''G'', gv_videoUrl = None, gv_status = ''failed'', gv_error = Some ''x''\<rparr>])
   \<and> map fst (fst (handleRetryAllFailed (\<lambda>k. k < 2)
       (undisturbed_retry
          [\<lparr>sc_scene = 2, sc_title = ''B'', sc_description = ''b''\<rparr>,
           \<lparr>sc_scene = 5, sc_title = ''E'', sc_description = ''e''\<rparr>,
           \<lparr>sc_scene = 7, sc_title = ''G'', sc_description = ''g''\<rparr>]
          (\<lambda>k. \<lparr>generate_reply = Rejected ''offline'', abort_in_generate = False,
                  ticks = (\<lambda>j. \<lparr>abort_in_sleep = False, status_reply = Rejected ''offline'',
                                 abort_in_fetch = False, clock = ''0''\<rparr>)\<rparr>))
       [\<lparr>gv_sceneNumber = 1, gv_sceneTitle = ''A'', gv_videoUrl = Some ''a'', gv_status = ''completed'', gv_error = None\<rparr>,
        \<lparr>gv_sceneNumber = 2, gv_sceneTitle = ''B'', gv_videoUrl = None, gv_status = ''failed'', gv_error = Some ''x''\<rparr>,
        \<lparr>gv_sceneNumber = 5, gv_sceneTitle = ''E'', gv_videoUrl = None, gv_status = ''failed'', gv_error = Some ''x''\<rparr>,
        \<lparr>gv_sceneNumber = 7, gv_sceneTitle = ''G'', gv_videoUrl = None, gv_status = ''failed'', gv_error = Some ''x''\<rparr>])) = [2]
   \<and> length (filter is_generate_request (concat (map snd (fst (handleRetryAllFailed (\<lambda>k. k < 2)
       (undisturbed_retry
          [\<lparr>sc_scene = 2, sc_title = ''B'', sc_description = ''b''\<rparr>,
           \<lparr>sc_scene = 5, sc_title = ''E'', sc_description = ''e''\<rparr>,
           \<lparr>sc_scene = 7, sc_title = ''G'', sc_description = ''g''\<rparr>]
          (\<lambda>k. \<lparr>generate_reply = Rejected ''offline'', abort_in_generate = False,
                  ticks = (\<lambda>j. \<lparr>abort_in_sleep = False, status_reply = Rejected ''offline'',
                                 abort_in_fetch = False, clock = ''0''\<rparr>)\<rparr>))
       [\<lparr>gv_sceneNumber = 1, gv_sceneTitle = ''A'', gv_videoUrl = Some ''a'', gv_status = ''completed'', gv_error = None\<rparr>,
        \<lparr>gv_sceneNumber = 2, gv_sceneTitle = ''B'', gv_videoUrl = None, gv_status = ''failed'', gv_error = Some ''x''\<rparr>,
        \<lparr>gv_sceneNumber = 5, gv_sceneTitle = ''E'', gv_videoUrl = None, gv_status = ''failed'', gv_error = Some ''x''\<rparr>,
        \<lparr>gv_sceneNumber = 7, gv_sceneTitle = ''G'', gv_videoUrl = None, gv_status = ''failed'', gv_error = Some ''x''\<rparr>]))))) = 1
   \<and> failedSceneNumbers (snd (handleRetryAllFailed (\<lambda>k. k < 2)
       (undisturbed_retry
          [\<lparr>sc_scene = 2, sc_title = ''B'', sc_description = ''b''\<rparr>,
           \<lparr>sc_scene = 5, sc_title = ''E'', sc_description = ''e''\<rparr>,
           \<lparr>sc_scene = 7, sc_title = ''G'', sc_description = ''g''\<rparr>]
          (\<lambda>k. \<lparr>generate_reply = Rejected ''offline'', abort_in_generate = False,
                  ticks = (\<lambda>j. \<lparr>abort_in_sleep = False, status_reply = Rejected ''offline'',
                                 abort_in_fetch = False, clock = ''0''\<rparr>)\<rparr>))
       [\<lparr>gv_sceneNumber = 1, gv_sceneTitle = ''A'', gv_videoUrl = Some ''a'', gv_status = ''completed'', gv_error = None\<rparr>,
        \<lparr>gv_sceneNumber = 2, gv_sceneTitle = ''B'', gv_videoUrl = None, gv_status = ''failed'', gv_error = Some ''x''\<rparr>,
        \<lparr>gv_sceneNumber = 5, gv_sceneTitle = ''E'', gv_videoUrl = None, gv_status = ''failed'', gv_error = Some ''x''\<rparr>,
        \<lparr>gv_sceneNumber = 7, gv_sceneTitle = ''G'', gv_videoUrl = None, gv_status = ''failed'', gv_error = Some ''x''\<rparr>])) = [2, 5, 7]"
proof -
  let ?scenes = "[\<lparr>sc_scene = 2, sc_title = ''B'', sc_description = ''b''\<rparr>,
           \<lparr>sc_scene = 5, sc_title = ''E'', sc_description = ''e''\<rparr>,
           \<lparr>sc_scene = 7, sc_title = ''G'', sc_description = ''g''\<rparr>]"
  let ?envs = "\<lambda>k::int. \<lparr>generate_reply = Rejected ''offline'', abort_in_generate = False,
                  ticks = (\<lambda>j::nat. \<lparr>abort_in_sleep = False, status_reply = Rejected ''offline'',
                                 abort_in_fetch = False, clock = ''0''\<rparr>)\<rparr>"
  let ?prev = "[\<lparr>gv_sceneNumber = 1, gv_sceneTitle = ''A'', gv_videoUrl = Some ''a'', gv_status = ''completed'', gv_error = None\<rparr>,
        \<lparr>gv_sceneNumber = 2, gv_sceneTitle = ''B'', gv_videoUrl = None, gv_status = ''failed'', gv_error = Some ''x''\<rparr>,
        \<lparr>gv_sceneNumber = 5, gv_sceneTitle = ''E'', gv_videoUrl = None, gv_status = ''failed'', gv_error = Some ''x''\<rparr>,
        \<lparr>gv_sceneNumber = 7, gv_sceneTitle = ''G'', gv_videoUrl = None, gv_status = ''failed'', gv_error = Some ''x''\<rparr>]"
  let ?retry = "undisturbed_retry ?scenes ?envs"
  have f: "failedSceneNumbers ?prev = [2, 5, 7]"
    by (simp add: failedSceneNumbers_def)
  have acts: "fst (?retry 2 ?prev)
      = [ControllerInstalled 2, Update (MarkGenerating 2),
         Sent (GenerateVideo \<lparr>sc_scene = 2, sc_title = ''B'', sc_description = ''b''\<rparr>),
         Update (MarkFailed 2 ''offline''),
         Toasted (Toast ''Regeneration Failed'' ''offline''),
         ControllerDeleted 2]"
    by (simp add: undisturbed_retry_def handleRetryVideo_def retry_attempt_def catch_block_def)
  have after: "failedSceneNumbers (snd (?retry 2 ?prev)) = [2, 5, 7]"
    by (simp add: undisturbed_retry_def handleRetryVideo_def retry_attempt_def catch_block_def
        failedSceneNumbers_def)
  have g: "length (filter is_generate_request (fst (?retry 2 ?prev))) = 1"
    unfolding acts by (simp add: is_generate_request_def)
  note t0 = handleRetryAllFailed_queued_updaters [where runs_now = "\<lambda>k. False"
      and retry = ?retry and prev = ?prev and n = 2 and rest = "[5, 7]"]
  note t1 = handleRetryAllFailed_queued_updaters [where runs_now = "\<lambda>k. k < 2"
      and retry = ?retry and prev = ?prev and n = 2 and rest = "[5, 7]"]
  have r0: "handleRetryAllFailed (\<lambda>k. False) ?retry ?prev = ([], ?prev)"
    using t0 by blast
  have h: "(0::nat) < 2 \<and> (1::nat) < 2 \<and> (\<forall>j::nat. 2 \<le> j \<longrightarrow> \<not> j < 2)
      \<and> failedSceneNumbers ?prev = [2, 5, 7]"
    using f by simp
  have r1: "handleRetryAllFailed (\<lambda>k. k < 2) ?retry ?prev
      = ([(2, fst (?retry 2 ?prev))], snd (?retry 2 ?prev))"
    using t1 h by blast
  show ?thesis
    unfolding r0 r1 using f g after by simp
qed

section \<open>Properties of the retry transition system\<close>








































end
